theory Spec2Isabelle
  imports Main "HOL-Library.Word" "HOL-Library.AList"
begin

unbundle bit_operations_syntax

section \<open>Bytes, slices and fixed-width integers on the wire\<close>

text \<open>
  An \<open>e::slice\<close> is a pointer and a size; the model keeps the bytes it denotes.
  Buffers are modelled by their contents, so a write pointer into a buffer is the
  list of bytes written so far and a read pointer is the list of bytes not yet read.
\<close>

type_synonym byte = "8 word"
type_synonym slice = "byte list"

text \<open>\<open>n\<close>-byte unsigned integers, least significant byte first (\<open>e::pack32le\<close>,
  \<open>e::unpack32le\<close>) and most significant byte first (the order
  \<open>e::buffer\<close>'s packer writes integers in).\<close>

fun le_bytes :: "nat \<Rightarrow> nat \<Rightarrow> slice" where
  "le_bytes 0 v = []"
| "le_bytes (Suc n) v = of_nat (v mod 256) # le_bytes n (v div 256)"

fun le_value :: "slice \<Rightarrow> nat" where
  "le_value [] = 0"
| "le_value (b # bs) = unat b + 256 * le_value bs"

definition be_bytes :: "nat \<Rightarrow> nat \<Rightarrow> slice" where
  "be_bytes n v = rev (le_bytes n v)"

definition be_value :: "slice \<Rightarrow> nat" where
  "be_value bs = le_value (rev bs)"

definition pack32le :: "32 word \<Rightarrow> slice" where
  "pack32le x = le_bytes 4 (unat x)"

definition unpack32le :: "slice \<Rightarrow> 32 word" where
  "unpack32le bs = of_nat (le_value (take 4 bs))"

section \<open>Micro-operations (datatypes/microop.cc)\<close>

text \<open>The element types the containers are instantiated at (the \<open>KEY_T\<close> and
  \<open>VAL_T\<close> arguments of the macros of datatypes/map.cc).\<close>

datatype elem_type = T_string | T_int64 | T_float

text \<open>
  The enumerations \<open>microaction\<close>, \<open>hyperdatatype\<close> and \<open>microerror\<close> are declared
  in headers that are not part of the sources at hand. The enumerators below are the
  ones the code names; \<open>HYPERDATATYPE_MAP k v\<close> stands for the pasted name
  \<open>HYPERDATATYPE_MAP_k_v\<close>, and \<open>HYPERDATATYPE_OTHER\<close> for every enumerator the
  code at hand never names (lists, sets, ...).
\<close>

datatype microaction =
    OP_FAIL
  | OP_SET
  | OP_STRING_APPEND
  | OP_STRING_PREPEND
  | OP_NUM_ADD
  | OP_NUM_SUB
  | OP_NUM_MUL
  | OP_NUM_DIV
  | OP_NUM_MOD
  | OP_NUM_AND
  | OP_NUM_OR
  | OP_NUM_XOR
  | OP_LIST_LPUSH
  | OP_LIST_RPUSH
  | OP_SET_ADD
  | OP_SET_REMOVE
  | OP_SET_INTERSECT
  | OP_SET_UNION
  | OP_MAP_ADD
  | OP_MAP_REMOVE

datatype hyperdatatype =
    HYPERDATATYPE_STRING
  | HYPERDATATYPE_INT64
  | HYPERDATATYPE_FLOAT
  | HYPERDATATYPE_MAP_GENERIC
  | HYPERDATATYPE_MAP elem_type elem_type
  | HYPERDATATYPE_OTHER nat

datatype microerror =
    MICROERR_MALFORMED
  | MICROERR_WRONGTYPE
  | MICROERR_WRONGACTION
  | MICROERR_OVERFLOW

record microop =
  attr :: "16 word"
  action :: microaction
  arg1 :: slice
  arg1_datatype :: hyperdatatype
  arg2 :: slice
  arg2_datatype :: hyperdatatype

text \<open>
  The numeric values of the enumerators are in the missing headers, so the casts
  between an enumeration and its wire integer are parameters: \<open>action_value\<close> and
  \<open>datatype_value\<close> give an enumerator's integer value, \<open>action_of\<close> and
  \<open>datatype_of\<close> are \<open>static_cast<microaction>\<close> and \<open>static_cast<hyperdatatype>\<close>.
\<close>

record enum_casts =
  action_value :: "microaction \<Rightarrow> nat"
  action_of :: "nat \<Rightarrow> microaction"
  datatype_value :: "hyperdatatype \<Rightarrow> nat"
  datatype_of :: "nat \<Rightarrow> hyperdatatype"

text \<open>
  \<open>e::buffer::packer\<close>: the model of a packer is the bytes packed so far. An integer
  is packed at its width (a wider value is truncated by the cast), a slice as its
  \<open>u32\<close> size followed by its bytes.
\<close>

type_synonym packer = slice

definition pack_uint :: "nat \<Rightarrow> packer \<Rightarrow> nat \<Rightarrow> packer" where
  "pack_uint n lhs v = lhs @ be_bytes n (v mod 256 ^ n)"

definition pack_slice :: "packer \<Rightarrow> slice \<Rightarrow> packer" where
  "pack_slice lhs s = pack_uint 4 lhs (length s) @ s"

text \<open>
  \<open>e::buffer::unpacker\<close>: the bytes that remain, or \<open>None\<close> once a read has run
  past the end of the buffer (the unpacker's error state, which every later read
  keeps).
\<close>

type_synonym unpacker = "slice option"

definition unpack_uint :: "nat \<Rightarrow> unpacker \<Rightarrow> (nat \<times> slice) option" where
  "unpack_uint n lhs =
     (case lhs of
        None \<Rightarrow> None
      | Some bs \<Rightarrow> if length bs < n then None else Some (be_value (take n bs), drop n bs))"

definition unpack_slice :: "unpacker \<Rightarrow> (slice \<times> slice) option" where
  "unpack_slice lhs =
     (case unpack_uint 4 lhs of
        None \<Rightarrow> None
      | Some (sz, bs) \<Rightarrow> if length bs < sz then None else Some (take sz bs, drop sz bs))"

text \<open>\<open>operator <<\<close> for a microop.\<close>

definition pack_microop :: "enum_casts \<Rightarrow> packer \<Rightarrow> microop \<Rightarrow> packer" where
  "pack_microop ec lhs rhs =
     (let action8 = action_value ec (action rhs) mod 256;
          arg1_datatype16 = datatype_value ec (arg1_datatype rhs) mod 65536;
          arg2_datatype16 = datatype_value ec (arg2_datatype rhs) mod 65536;
          p1 = pack_uint 2 lhs (unat (attr rhs));
          p2 = pack_uint 1 p1 action8;
          p3 = pack_slice p2 (arg1 rhs);
          p4 = pack_uint 2 p3 arg1_datatype16;
          p5 = pack_slice p4 (arg2 rhs)
      in pack_uint 2 p5 arg2_datatype16)"

text \<open>\<open>operator >>\<close> for a microop: the microop read and the unpacker's remaining
  bytes, or \<open>None\<close> when the unpacker ends in its error state.\<close>

definition unpack_microop :: "enum_casts \<Rightarrow> unpacker \<Rightarrow> (microop \<times> slice) option" where
  "unpack_microop ec lhs =
     (case unpack_uint 2 lhs of None \<Rightarrow> None | Some (a, r1) \<Rightarrow>
     (case unpack_uint 1 (Some r1) of None \<Rightarrow> None | Some (act, r2) \<Rightarrow>
     (case unpack_slice (Some r2) of None \<Rightarrow> None | Some (a1, r3) \<Rightarrow>
     (case unpack_uint 2 (Some r3) of None \<Rightarrow> None | Some (d1, r4) \<Rightarrow>
     (case unpack_slice (Some r4) of None \<Rightarrow> None | Some (a2, r5) \<Rightarrow>
     (case unpack_uint 2 (Some r5) of None \<Rightarrow> None | Some (d2, r6) \<Rightarrow>
        Some (\<lparr>attr = of_nat a, action = action_of ec act, arg1 = a1,
               arg1_datatype = datatype_of ec d1, arg2 = a2,
               arg2_datatype = datatype_of ec d2\<rparr>, r6)))))))"

definition pack_size :: "microop \<Rightarrow> nat" where
  "pack_size m = 2 + 1 + 4 + length (arg1 m) + 2 + 4 + length (arg2 m) + 2"

text \<open>A microop fits the wire form when each enumerator's value fits its field and
  survives the two casts, and each argument's size fits the \<open>u32\<close> size field.\<close>

definition fits_wire :: "enum_casts \<Rightarrow> microop \<Rightarrow> bool" where
  "fits_wire ec m \<longleftrightarrow>
     action_value ec (action m) < 256 \<and>
     action_of ec (action_value ec (action m)) = action m \<and>
     datatype_value ec (arg1_datatype m) < 65536 \<and>
     datatype_of ec (datatype_value ec (arg1_datatype m)) = arg1_datatype m \<and>
     datatype_value ec (arg2_datatype m) < 65536 \<and>
     datatype_of ec (datatype_value ec (arg2_datatype m)) = arg2_datatype m \<and>
     length (arg1 m) < 2 ^ 32 \<and> length (arg2 m) < 2 ^ 32"

text \<open>A concrete cast table and microop, used to run the packer.\<close>

definition example_casts :: enum_casts where
  "example_casts =
     \<lparr>action_value = (\<lambda>a. case a of OP_FAIL \<Rightarrow> 0 | OP_SET \<Rightarrow> 1 | _ \<Rightarrow> 2),
      action_of = (\<lambda>n. if n = 0 then OP_FAIL else if n = 1 then OP_SET else OP_STRING_APPEND),
      datatype_value = (\<lambda>d. case d of HYPERDATATYPE_STRING \<Rightarrow> 8960 | HYPERDATATYPE_INT64 \<Rightarrow> 8961 | _ \<Rightarrow> 9727),
      datatype_of = (\<lambda>n. if n = 8960 then HYPERDATATYPE_STRING
                         else if n = 8961 then HYPERDATATYPE_INT64 else HYPERDATATYPE_OTHER n)\<rparr>"

definition example_microop :: microop where
  "example_microop =
     \<lparr>attr = 3, action = OP_SET, arg1 = [104, 105], arg1_datatype = HYPERDATATYPE_STRING,
      arg2 = [], arg2_datatype = HYPERDATATYPE_INT64\<rparr>"

section \<open>The map engine (datatypes/map.cc)\<close>

subsection \<open>Element functions\<close>

text \<open>
  Modelled from the spec: the per-type element functions \<open>step_T\<close>, \<open>write_T\<close> and
  \<open>validate_as_T\<close> (datatypes/step.h, write.h, validate.h) are missing from the
  sources. The spec gives the element encodings: a string is its \<open>u32\<close>
  little-endian length followed by its bytes, a signed 64-bit integer is 8 bytes
  little-endian, a float is 8 bytes little-endian; validation fails on truncation;
  the writer prepends the \<open>u32\<close> length to a string.

  \<open>step t ptr\<close> reads one element of type \<open>t\<close> at \<open>ptr\<close> (the bytes from \<open>ptr\<close>
  to \<open>end\<close>): the element slice and the advanced \<open>ptr\<close>, or \<open>None\<close> when the
  element is truncated. The slice of a string element is its bytes without the
  length prefix.
\<close>

definition step :: "elem_type \<Rightarrow> slice \<Rightarrow> (slice \<times> slice) option" where
  "step t ptr =
     (case t of
        T_string \<Rightarrow>
          if length ptr < 4 then None
          else let sz = unat (unpack32le ptr); p = drop 4 ptr
               in if length p < sz then None else Some (take sz p, drop sz p)
      | T_int64 \<Rightarrow> if length ptr < 8 then None else Some (take 8 ptr, drop 8 ptr)
      | T_float \<Rightarrow> if length ptr < 8 then None else Some (take 8 ptr, drop 8 ptr))"

text \<open>\<open>write_elem t elem\<close>: the bytes \<open>write_T(writeto, elem)\<close> appends at \<open>writeto\<close>.\<close>

definition write_elem :: "elem_type \<Rightarrow> slice \<Rightarrow> slice" where
  "write_elem t elem =
     (case t of
        T_string \<Rightarrow> pack32le (of_nat (length elem)) @ elem
      | T_int64 \<Rightarrow> elem
      | T_float \<Rightarrow> elem)"

definition validate_as :: "elem_type \<Rightarrow> slice \<Rightarrow> bool" where
  "validate_as t elem =
     (case t of T_string \<Rightarrow> True | T_int64 \<Rightarrow> length elem = 8 | T_float \<Rightarrow> length elem = 8)"

text \<open>
  The comparators \<open>compare_T\<close> (datatypes/compare.h) are missing as well, and the
  spec does not describe them: the comparator of each element type is a parameter.
\<close>

type_synonym comparators = "elem_type \<Rightarrow> slice \<Rightarrow> slice \<Rightarrow> bool"

lemma step_shorter: "step t ptr = Some (elem, p') \<Longrightarrow> length p' < length ptr"
  by (cases t) (auto simp: step_def Let_def split: if_splits)

subsection \<open>validate_map\<close>

text \<open>
  The loop of \<open>validate_map\<close>. \<open>ptr\<close> is the bytes from the read pointer to \<open>end\<close>,
  so \<open>ptr < end\<close> is \<open>ptr \<noteq> []\<close> and \<open>ptr == end\<close> is \<open>ptr = []\<close>; \<open>old\<close> is
  \<open>None\<close> while \<open>has_old\<close> is false. The function pointers \<open>step_key\<close> and
  \<open>step_val\<close> are given by the element types \<open>kt\<close> and \<open>vt\<close> they step over.
\<close>

function validate_map_loop ::
  "elem_type \<Rightarrow> elem_type \<Rightarrow> (slice \<Rightarrow> slice \<Rightarrow> bool) \<Rightarrow> slice \<Rightarrow> slice option \<Rightarrow> bool" where
  "validate_map_loop kt vt compare_key_less ptr old =
     (if ptr \<noteq> [] then
        (case step kt ptr of
           None \<Rightarrow> False
         | Some (key, p1) \<Rightarrow>
             (case step vt p1 of
                None \<Rightarrow> False
              | Some (val, p2) \<Rightarrow>
                  if (case old of Some old_key \<Rightarrow> \<not> compare_key_less old_key key | None \<Rightarrow> False)
                  then False
                  else validate_map_loop kt vt compare_key_less p2 (Some key)))
      else ptr = [])"
  by pat_completeness auto
termination
proof (relation "measure (\<lambda>(kt, vt, c, ptr, old). length ptr)")
  show "wf (measure (\<lambda>(kt, vt, c, ptr, old). length ptr))" by simp
next
  fix kt vt :: elem_type and compare_key_less :: "slice \<Rightarrow> slice \<Rightarrow> bool"
    and ptr :: slice and old :: "slice option" and x2 key p1 x2a val p2
  assume "step kt ptr = Some x2" "(key, p1) = x2" "step vt p1 = Some x2a" "(val, p2) = x2a"
  then have "length p1 < length ptr" "length p2 < length p1"
    using step_shorter by metis+
  then show "((kt, vt, compare_key_less, p2, Some key), (kt, vt, compare_key_less, ptr, old))
      \<in> measure (\<lambda>(kt, vt, c, ptr, old). length ptr)"
    by simp
qed

declare validate_map_loop.simps [simp del]

definition validate_map ::
  "elem_type \<Rightarrow> elem_type \<Rightarrow> (slice \<Rightarrow> slice \<Rightarrow> bool) \<Rightarrow> slice \<Rightarrow> bool" where
  "validate_map kt vt compare_key_less m = validate_map_loop kt vt compare_key_less m None"


subsection \<open>The encoding of a map, in the spec's words\<close>

text \<open>
  A byte value of map type is a concatenation of (key element, value element) pairs,
  strictly sorted by key. An element is well formed when it has an encoding: any
  string whose length fits the \<open>u32\<close> prefix, any 8 bytes for an integer or a float.
\<close>

definition well_formed_elem :: "elem_type \<Rightarrow> slice \<Rightarrow> bool" where
  "well_formed_elem t e =
     (case t of T_string \<Rightarrow> length e < 2 ^ 32 | T_int64 \<Rightarrow> length e = 8 | T_float \<Rightarrow> length e = 8)"

definition encode_elem :: "elem_type \<Rightarrow> slice \<Rightarrow> slice" where
  "encode_elem t e =
     (case t of T_string \<Rightarrow> le_bytes 4 (length e) @ e | T_int64 \<Rightarrow> e | T_float \<Rightarrow> e)"

definition encode_pairs :: "elem_type \<Rightarrow> elem_type \<Rightarrow> (slice \<times> slice) list \<Rightarrow> slice" where
  "encode_pairs kt vt ps = concat (map (\<lambda>(k, v). encode_elem kt k @ encode_elem vt v) ps)"

definition is_map_encoding ::
  "elem_type \<Rightarrow> elem_type \<Rightarrow> (slice \<Rightarrow> slice \<Rightarrow> bool) \<Rightarrow> slice \<Rightarrow> bool" where
  "is_map_encoding kt vt lt b \<longleftrightarrow>
     (\<exists>ps. list_all (\<lambda>(k, v). well_formed_elem kt k \<and> well_formed_elem vt v) ps \<and>
           b = encode_pairs kt vt ps \<and>
           successively lt (map fst ps))"

subsection \<open>apply_map\<close>

text \<open>
  \<open>std::map<e::slice, e::slice>\<close> is an association list with one entry per key.
  The order the container iterates in is \<open>e::slice\<close>'s own, which only feeds
  \<open>std::sort\<close> below; the model keeps the entries in the order the keys were first
  inserted. \<open>map_insert\<close> is \<open>map.insert(std::make_pair(key, val))\<close>, which
  leaves an entry that is already there; \<open>map_assign\<close> is \<open>map[key] = val\<close>;
  \<open>map_erase\<close> is \<open>map.erase(key)\<close>; \<open>map_find\<close> is \<open>map.find(key)\<close>.
\<close>

type_synonym slice_map = "(slice \<times> slice) list"

definition map_find :: "slice \<Rightarrow> slice_map \<Rightarrow> slice option" where
  "map_find k m = map_of m k"

definition map_assign :: "slice \<Rightarrow> slice \<Rightarrow> slice_map \<Rightarrow> slice_map" where
  "map_assign k v m = AList.update k v m"



text \<open>
  An apply function (\<open>apply_string\<close>, \<open>apply_int64\<close>, \<open>apply_float\<close>) takes the old
  value, the micro-ops and the write pointer, and returns the advanced write
  pointer, or \<open>NULL\<close> with \<open>*error\<close> set: here the bytes written so far followed
  by the new bytes, or the error.
\<close>

type_synonym apply_fn = "slice \<Rightarrow> microop list \<Rightarrow> slice \<Rightarrow> microerror + slice"

text \<open>
  Modelled from the spec: \<open>apply_string\<close> (its source file is missing). It applies
  the string micro-ops to the old value in order, set, append and prepend, and
  writes the resulting bytes; it does not write a length before them, as the comment
  above \<open>wrap_apply_string\<close> says. Every other action is \<open>MICROERR_WRONGACTION\<close>.
\<close>

fun apply_string :: apply_fn where
  "apply_string old_value [] writeto = Inr (writeto @ old_value)"
| "apply_string old_value (m # ops) writeto =
     (if action m = OP_SET then apply_string (arg1 m) ops writeto
      else if action m = OP_STRING_APPEND then apply_string (old_value @ arg1 m) ops writeto
      else if action m = OP_STRING_PREPEND then apply_string (arg1 m @ old_value) ops writeto
      else Inl MICROERR_WRONGACTION)"

text \<open>
  The other two apply functions and the comparators are parameters: their sources
  are missing and the spec does not give their results.
\<close>

record datatypes_env =
  compare :: comparators
  apply_int64 :: apply_fn
  apply_float :: apply_fn

definition apply_pod :: "datatypes_env \<Rightarrow> elem_type \<Rightarrow> apply_fn" where
  "apply_pod env t =
     (case t of T_string \<Rightarrow> apply_string | T_int64 \<Rightarrow> apply_int64 env | T_float \<Rightarrow> apply_float env)"

text \<open>
  \<open>apply_map_microop\<close>. The scratch buffer starts empty, so the slice stored in the
  map, \<open>e::slice(scratch, write_to - scratch)\<close>, is all that \<open>apply_pod\<close> wrote.
  When \<open>apply_pod\<close> returns \<open>NULL\<close> the function returns false and \<open>apply_map\<close>
  returns at once: the result is the error. The capacity of the scratch buffer
  (\<open>old_value.size() + 4 + arg1.size()\<close>) is not modelled.
\<close>

definition apply_map_microop :: "apply_fn \<Rightarrow> slice_map \<Rightarrow> microop \<Rightarrow> microerror + slice_map" where
  "apply_map_microop apply_pod_fn m ops =
     (let old_value = (case map_find (arg2 ops) m of Some v \<Rightarrow> v | None \<Rightarrow> [])
      in case apply_pod_fn old_value [ops] [] of
           Inl error \<Rightarrow> Inl error
         | Inr scratch \<Rightarrow> Inr (map_assign (arg2 ops) scratch m))"



text \<open>The parameters of \<open>apply_map\<close> other than the old value, the ops and the
  write pointer.\<close>

record map_fns =
  step_key :: elem_type
  step_val :: elem_type
  validate_key :: "slice \<Rightarrow> bool"
  validate_val :: "slice \<Rightarrow> bool"
  compare_pair_less :: "slice \<times> slice \<Rightarrow> slice \<times> slice \<Rightarrow> bool"
  write_key :: "slice \<Rightarrow> slice"
  write_val :: "slice \<Rightarrow> slice"
  apply_pod_fn :: apply_fn
  container :: hyperdatatype
  keyt :: hyperdatatype
  valt :: hyperdatatype





text \<open>The final loop, which writes each pair's key and value.\<close>

fun write_pairs :: "map_fns \<Rightarrow> slice \<Rightarrow> (slice \<times> slice) list \<Rightarrow> slice" where
  "write_pairs f writeto [] = writeto"
| "write_pairs f writeto (vi # v) =
     write_pairs f (writeto @ write_key f (fst vi) @ write_val f (snd vi)) v"



text \<open>\<open>wrap_apply_string\<close>: \<open>apply_string\<close> writes four bytes past the write
  pointer and the length of what it wrote is packed in front.\<close>

definition wrap_apply_string :: apply_fn where
  "wrap_apply_string old_value ops writeto =
     (case apply_string old_value ops [] of
        Inl error \<Rightarrow> Inl error
      | Inr written \<Rightarrow> Inr (writeto @ pack32le (of_nat (length written)) @ written))"

definition cmp_pair_first ::
  "(slice \<Rightarrow> slice \<Rightarrow> bool) \<Rightarrow> slice \<times> slice \<Rightarrow> slice \<times> slice \<Rightarrow> bool" where
  "cmp_pair_first compare_less lhs rhs = compare_less (fst lhs) (fst rhs)"

definition hyperdatatype_of :: "elem_type \<Rightarrow> hyperdatatype" where
  "hyperdatatype_of t =
     (case t of T_string \<Rightarrow> HYPERDATATYPE_STRING | T_int64 \<Rightarrow> HYPERDATATYPE_INT64
      | T_float \<Rightarrow> HYPERDATATYPE_FLOAT)"

text \<open>
  The macro \<open>APPLY_MAP(KEY_T, VAL_T, KEY_TC, VAL_TC, WRAP_PREFIX)\<close>. Its last
  argument is \<open>wrap_apply_\<close> for string values and \<open>apply_\<close> otherwise, and the
  body does not use it: the apply function handed to \<open>apply_map\<close> is
  \<open>apply_ ## VAL_T\<close>.
\<close>

datatype wrap_prefix = Prefix_wrap_apply | Prefix_apply

definition APPLY_MAP_apply :: "datatypes_env \<Rightarrow> elem_type \<Rightarrow> wrap_prefix \<Rightarrow> apply_fn" where
  "APPLY_MAP_apply env VAL_T WRAP_PREFIX = apply_pod env VAL_T"

definition APPLY_MAP_fns :: "datatypes_env \<Rightarrow> elem_type \<Rightarrow> elem_type \<Rightarrow> wrap_prefix \<Rightarrow> map_fns" where
  "APPLY_MAP_fns env KEY_T VAL_T WRAP_PREFIX =
     \<lparr>step_key = KEY_T, step_val = VAL_T,
      validate_key = validate_as KEY_T, validate_val = validate_as VAL_T,
      compare_pair_less = cmp_pair_first (compare env KEY_T),
      write_key = write_elem KEY_T, write_val = write_elem VAL_T,
      apply_pod_fn = APPLY_MAP_apply env VAL_T WRAP_PREFIX,
      container = HYPERDATATYPE_MAP KEY_T VAL_T,
      keyt = hyperdatatype_of KEY_T,
      valt = hyperdatatype_of VAL_T\<rparr>"


text \<open>The nine instances; the last argument is the one the source passes.\<close>

definition the_wrap_prefix :: "elem_type \<Rightarrow> wrap_prefix" where
  "the_wrap_prefix VAL_T = (case VAL_T of T_string \<Rightarrow> Prefix_wrap_apply | _ \<Rightarrow> Prefix_apply)"


text \<open>A value slice begins with its \<open>u32\<close> little-endian length prefix when its
  first four bytes are the length of the rest.\<close>

definition begins_with_length_prefix :: "slice \<Rightarrow> bool" where
  "begins_with_length_prefix s \<longleftrightarrow>
     4 \<le> length s \<and> take 4 s = pack32le (of_nat (length s - 4))"

subsection \<open>A concrete environment\<close>

text \<open>Bytewise lexicographic order, a comparator to run the engine with.\<close>

fun lex_less :: "slice \<Rightarrow> slice \<Rightarrow> bool" where
  "lex_less [] [] = False"
| "lex_less [] (y # ys) = True"
| "lex_less (x # xs) [] = False"
| "lex_less (x # xs) (y # ys) = (x < y \<or> (x = y \<and> lex_less xs ys))"

definition example_env :: datatypes_env where
  "example_env =
     \<lparr>compare = (\<lambda>t. lex_less),
      apply_int64 = (\<lambda>old_value ops writeto. Inl MICROERR_WRONGACTION),
      apply_float = (\<lambda>old_value ops writeto. Inl MICROERR_WRONGACTION)\<rparr>"

definition example_append :: microop where
  "example_append =
     \<lparr>attr = 1, action = OP_STRING_APPEND, arg1 = [97], arg1_datatype = HYPERDATATYPE_STRING,
      arg2 = [107], arg2_datatype = HYPERDATATYPE_STRING\<rparr>"

subsection \<open>Contracts and invariants of apply_map\<close>

text \<open>The contract of a key comparator: a strict total order on the slices that
  are valid keys.\<close>

definition strict_total_on :: "(slice \<Rightarrow> bool) \<Rightarrow> (slice \<Rightarrow> slice \<Rightarrow> bool) \<Rightarrow> bool" where
  "strict_total_on P lt \<longleftrightarrow>
     (\<forall>a. P a \<longrightarrow> \<not> lt a a) \<and>
     (\<forall>a b c. P a \<and> P b \<and> P c \<and> lt a b \<and> lt b c \<longrightarrow> lt a c) \<and>
     (\<forall>a b. P a \<and> P b \<and> a \<noteq> b \<longrightarrow> lt a b \<or> lt b a)"






section \<open>The replication manager (hyperdaemon/replication_manager.cc)\<close>

subsection \<open>Identifiers, coordinates and messages\<close>

text \<open>
  Modelled from the spec: the identifier classes (hyperdex/ids.h) are missing from
  the sources. A region is a subspace of a space together with a hash prefix and
  mask; an entity is a region and a replica number (the code builds one as
  \<open>entityid(space, subspace, 64, point, 0)\<close> and reads \<open>from.mask\<close>). A
  default-constructed identifier is all zero: the spec has \<open>sent_e\<close> zero until an
  op is sent, and the code tests that against \<open>entityid()\<close>.
\<close>

record regionid =
  space :: "32 word"
  subspace :: "16 word"
  prefix :: "8 word"
  mask_bits :: "64 word"

record entityid = regionid +
  number :: "8 word"

type_synonym subspaceid = "32 word \<times> 16 word"

record coordinate =
  coord_prefix :: "8 word"
  point :: "64 word"

definition UINT16_MAX :: "16 word" where
  "UINT16_MAX = 65535"

definition UINT32_MAX :: "32 word" where
  "UINT32_MAX = 4294967295"

definition regionid_default :: regionid where
  "regionid_default = \<lparr>space = 0, subspace = 0, prefix = 0, mask_bits = 0\<rparr>"

definition entityid_default :: entityid where
  "entityid_default = \<lparr>space = 0, subspace = 0, prefix = 0, mask_bits = 0, number = 0\<rparr>"

definition mk_entityid :: "32 word \<Rightarrow> 16 word \<Rightarrow> 8 word \<Rightarrow> 64 word \<Rightarrow> 8 word \<Rightarrow> entityid" where
  "mk_entityid s ss p m n = \<lparr>space = s, subspace = ss, prefix = p, mask_bits = m, number = n\<rparr>"

definition get_region :: "entityid \<Rightarrow> regionid" where
  "get_region e = \<lparr>space = space e, subspace = subspace e, prefix = prefix e, mask_bits = mask_bits e\<rparr>"

definition get_subspace :: "'a regionid_scheme \<Rightarrow> subspaceid" where
  "get_subspace r = (space r, subspace r)"

definition coord :: "'a regionid_scheme \<Rightarrow> coordinate" where
  "coord r = \<lparr>coord_prefix = prefix r, point = mask_bits r\<rparr>"

text \<open>\<open>hyperdex::instance\<close> is opaque to the manager, which only copies and compares
  instances; \<open>instance_default\<close> is \<open>instance()\<close>. A disk reference is opaque too.\<close>

datatype instance_t = Instance nat

definition instance_default :: instance_t where
  "instance_default = Instance 0"

type_synonym version = "64 word"
type_synonym reference = nat

datatype network_msgtype =
    CHAIN_PUT | CHAIN_DEL | CHAIN_SUBSPACE | CHAIN_ACK | RESP_ATOMIC | MSGTYPE_OTHER nat

datatype network_returncode =
    NET_SUCCESS | NET_NOTFOUND | NET_BADDIMSPEC | NET_NOTUS | NET_SERVERERROR
  | NET_CMPFAIL | NET_READONLY | NET_OVERFLOW

datatype returncode =
    SUCCESS | NOTFOUND | MISSINGDISK | WRONGARITY | DATAFULL | SEARCHFULL
  | SYNCFAILED | DROPFAILED | SPLITFAILED | DIDNOTHING

text \<open>
  A message handed to \<open>m_comm->send(from, to, type, msg)\<close>. The buffer is modelled
  by what was packed into it after the messenger's header, in the order packed.
\<close>

datatype payload =
    Ack_payload version slice
  | Put_payload version "8 word" slice "slice list"
  | Del_payload version slice
  | Subspace_payload version slice "slice list" "64 word"
  | Response_payload "64 word" network_returncode

record message =
  msg_from :: entityid
  msg_to :: entityid
  msg_type :: network_msgtype
  msg_payload :: payload

subsection \<open>Pending and deferred operations, keyholders\<close>

text \<open>
  Modelled from the spec: \<open>clientop\<close>, \<open>pending\<close>, \<open>deferred\<close> and \<open>keyholder\<close>
  (replication_manager_pending.h, \<open>_deferred.h\<close>, \<open>_keyholder.h\<close>) are missing
  from the sources. The fields are those of section 3 of the spec, which the code
  reads and writes under the same names; the backing buffer is left out, since
  slices are modelled by their bytes. A new pending op has no client op unless one
  is given, has not been sent or acked, and is not fresh.
\<close>

record clientop =
  co_region :: regionid
  co_from :: entityid
  co_nonce :: "64 word"

definition clientop_default :: clientop where
  "clientop_default = \<lparr>co_region = regionid_default, co_from = entityid_default, co_nonce = 0\<rparr>"

record pending =
  has_value :: bool
  key :: slice
  p_value :: "slice list"
  co :: clientop
  retcode :: network_msgtype
  ref :: reference
  fresh :: bool
  acked :: bool
  subspace_prev :: "16 word"
  subspace_next :: "16 word"
  point_prev :: "64 word"
  point_this :: "64 word"
  point_next :: "64 word"
  point_next_next :: "64 word"
  recv_e :: entityid
  recv_i :: instance_t
  sent_e :: entityid
  sent_i :: instance_t

definition new_pending :: "bool \<Rightarrow> slice \<Rightarrow> slice list \<Rightarrow> clientop \<Rightarrow> pending" where
  "new_pending hv k v c =
     \<lparr>has_value = hv, key = k, p_value = v, co = c, retcode = MSGTYPE_OTHER 0, ref = 0,
      fresh = False, acked = False, subspace_prev = 0, subspace_next = 0,
      point_prev = 0, point_this = 0, point_next = 0, point_next_next = 0,
      recv_e = entityid_default, recv_i = instance_default,
      sent_e = entityid_default, sent_i = instance_default\<rparr>"

record deferred =
  d_has_value :: bool
  d_key :: slice
  d_value :: "slice list"
  from_ent :: entityid
  from_inst :: instance_t
  d_ref :: reference

text \<open>
  The keyholder of a key: three queues ordered by version, oldest first, and the
  version on disk. The operations are those of section 4.1 of the spec.
  Ops are shared by pointer between a queue and the handler that looked them up; the
  model writes a change made through such a pointer back to the queue entry
  (\<open>store_op\<close>), which is the same object as long as a version is in the keyholder
  once (invariant 2 of the spec).
\<close>

record keyholder =
  deferred_ops :: "(version \<times> deferred) list"
  blocked_ops :: "(version \<times> pending) list"
  committable_ops :: "(version \<times> pending) list"
  kh_version_on_disk :: version

datatype keyholder_error = DuplicateVersion

definition new_keyholder :: keyholder where
  "new_keyholder = \<lparr>deferred_ops = [], blocked_ops = [], committable_ops = [], kh_version_on_disk = 0\<rparr>"

definition has_deferred_ops :: "keyholder \<Rightarrow> bool" where
  "has_deferred_ops kh \<longleftrightarrow> deferred_ops kh \<noteq> []"

definition has_blocked_ops :: "keyholder \<Rightarrow> bool" where
  "has_blocked_ops kh \<longleftrightarrow> blocked_ops kh \<noteq> []"

definition has_committable_ops :: "keyholder \<Rightarrow> bool" where
  "has_committable_ops kh \<longleftrightarrow> committable_ops kh \<noteq> []"

definition kh_empty :: "keyholder \<Rightarrow> bool" where
  "kh_empty kh \<longleftrightarrow> deferred_ops kh = [] \<and> blocked_ops kh = [] \<and> committable_ops kh = []"

text \<open>\<open>get_by_version\<close>: the op at a version across blocked and committable.\<close>

definition get_by_version :: "keyholder \<Rightarrow> version \<Rightarrow> pending option" where
  "get_by_version kh v =
     (case map_of (committable_ops kh) v of
        Some p \<Rightarrow> Some p
      | None \<Rightarrow> map_of (blocked_ops kh) v)"

fun store_in :: "version \<Rightarrow> pending \<Rightarrow> (version \<times> pending) list \<Rightarrow> (version \<times> pending) list" where
  "store_in v p [] = []"
| "store_in v p ((v', p') # q) = (if v' = v then (v, p) # q else (v', p') # store_in v p q)"

definition store_op :: "version \<Rightarrow> pending \<Rightarrow> keyholder \<Rightarrow> keyholder" where
  "store_op v p kh =
     (case map_of (committable_ops kh) v of
        Some _ \<Rightarrow> kh\<lparr>committable_ops := store_in v p (committable_ops kh)\<rparr>
      | None \<Rightarrow> kh\<lparr>blocked_ops := store_in v p (blocked_ops kh)\<rparr>)"

text \<open>\<open>insert_deferred\<close> places the op at its version in the deferred queue and
  fails with \<open>DuplicateVersion\<close> when the version is there already.\<close>

fun insert_by_version :: "version \<Rightarrow> 'a \<Rightarrow> (version \<times> 'a) list \<Rightarrow> (version \<times> 'a) list" where
  "insert_by_version v x [] = [(v, x)]"
| "insert_by_version v x ((v', x') # q) =
     (if v < v' then (v, x) # (v', x') # q else (v', x') # insert_by_version v x q)"

definition insert_deferred :: "version \<Rightarrow> deferred \<Rightarrow> keyholder \<Rightarrow> keyholder_error + keyholder" where
  "insert_deferred v d kh =
     (if map_of (deferred_ops kh) v \<noteq> None then Inl DuplicateVersion
      else Inr (kh\<lparr>deferred_ops := insert_by_version v d (deferred_ops kh)\<rparr>))"

text \<open>\<open>append_blocked\<close> appends at the tail; that the version is above all blocked
  and committable versions is the caller's obligation.\<close>

definition append_blocked :: "version \<Rightarrow> pending \<Rightarrow> keyholder \<Rightarrow> keyholder" where
  "append_blocked v p kh = kh\<lparr>blocked_ops := blocked_ops kh @ [(v, p)]\<rparr>"

definition transfer_blocked_to_committable :: "keyholder \<Rightarrow> keyholder" where
  "transfer_blocked_to_committable kh =
     (case blocked_ops kh of
        [] \<Rightarrow> kh
      | b # bs \<Rightarrow> kh\<lparr>blocked_ops := bs, committable_ops := committable_ops kh @ [b]\<rparr>)"

definition remove_oldest_committable_op :: "keyholder \<Rightarrow> keyholder" where
  "remove_oldest_committable_op kh = kh\<lparr>committable_ops := tl (committable_ops kh)\<rparr>"

definition remove_oldest_deferred_op :: "keyholder \<Rightarrow> keyholder" where
  "remove_oldest_deferred_op kh = kh\<lparr>deferred_ops := tl (deferred_ops kh)\<rparr>"

definition set_version_on_disk :: "version \<Rightarrow> keyholder \<Rightarrow> keyholder" where
  "set_version_on_disk v kh = kh\<lparr>kh_version_on_disk := v\<rparr>"

subsection \<open>Collaborators and the manager's state\<close>

text \<open>
  The configuration, the data layer, the messenger and the hashing are external
  collaborators, used through their interfaces only. The configuration is a record
  of the queries the manager makes. The other collaborators are parameters: what the
  data layer answers (over a disk state of any type), whether a send succeeds,
  whether a region's coordinate contains a hashed one, and the two functions of the
  datatypes layer that \<open>client_atomic\<close> calls.
\<close>

record schema =
  attrs_sz :: nat
  attrs :: "hyperdatatype list"

record configuration =
  quiesce :: bool
  quiesce_state_id :: string
  get_schema :: "32 word \<Rightarrow> schema option"
  in_region :: "instance_t \<Rightarrow> regionid \<Rightarrow> bool"
  is_point_leader :: "entityid \<Rightarrow> bool"
  subspaces :: "32 word \<Rightarrow> nat"
  repl_hasher :: "subspaceid \<Rightarrow> slice \<Rightarrow> slice list \<Rightarrow> coordinate"
  instancefor :: "entityid \<Rightarrow> instance_t"
  entityfor :: "instance_t \<Rightarrow> regionid \<Rightarrow> entityid"
  chain_adjacent :: "entityid \<Rightarrow> entityid \<Rightarrow> bool"
  is_tail :: "entityid \<Rightarrow> bool"
  is_head :: "entityid \<Rightarrow> bool"
  chain_next :: "entityid \<Rightarrow> entityid"
  sloppy_lookup :: "entityid \<Rightarrow> entityid"

datatype microcheck = Microcheck nat

record 'd collaborators =
  contains :: "coordinate \<Rightarrow> coordinate \<Rightarrow> bool"
  data_get :: "'d \<Rightarrow> regionid \<Rightarrow> slice \<Rightarrow> returncode \<times> slice list \<times> version \<times> reference"
  data_put :: "'d \<Rightarrow> regionid \<Rightarrow> slice \<Rightarrow> slice list \<Rightarrow> version \<Rightarrow> returncode \<times> 'd"
  data_del :: "'d \<Rightarrow> regionid \<Rightarrow> slice \<Rightarrow> returncode \<times> 'd"
  comm_send :: "message \<Rightarrow> bool"
  validate_as_type :: "slice \<Rightarrow> hyperdatatype \<Rightarrow> bool"
  apply_checks_and_ops ::
    "schema \<Rightarrow> microcheck list \<Rightarrow> microop list \<Rightarrow> slice \<Rightarrow> slice list
       \<Rightarrow> nat \<times> slice \<times> slice list \<times> microerror"

text \<open>
  The manager: its members, with the messenger as the list of messages handed to
  \<open>send\<close> so far and the state-transfer subsystem as the list of triggers added.
  The keyholder table is an association list in iteration order. The locks are not
  modelled: a handler runs from start to end on its own.
\<close>

type_synonym keypair = "regionid \<times> slice"

record 'd manager =
  m_config :: configuration
  m_us :: instance_t
  m_quiesce :: bool
  m_quiesce_state_id :: string
  m_shutdown :: bool
  m_keyholders :: "(keypair \<times> keyholder) list"
  m_data :: 'd
  m_comm :: "message list"
  m_ost :: "(regionid \<times> slice \<times> version) list"

text \<open>\<open>m_comm->send\<close>: the message joins those sent; the collaborator says whether
  the send succeeded.\<close>

definition comm_send_msg ::
  "'d collaborators \<Rightarrow> 'd manager \<Rightarrow> entityid \<Rightarrow> entityid \<Rightarrow> network_msgtype \<Rightarrow> payload
     \<Rightarrow> bool \<times> 'd manager" where
  "comm_send_msg ext w src dst type msg =
     (let m = \<lparr>msg_from = src, msg_to = dst, msg_type = type, msg_payload = msg\<rparr>
      in (comm_send ext m, w\<lparr>m_comm := m_comm w @ [m]\<rparr>))"

definition send_ack ::
  "'d collaborators \<Rightarrow> 'd manager \<Rightarrow> entityid \<Rightarrow> entityid \<Rightarrow> version \<Rightarrow> slice \<Rightarrow> bool \<times> 'd manager" where
  "send_ack ext w src dst version k = comm_send_msg ext w src dst CHAIN_ACK (Ack_payload version k)"

definition respond_to_client ::
  "'d collaborators \<Rightarrow> 'd manager \<Rightarrow> entityid \<Rightarrow> entityid \<Rightarrow> 64 word \<Rightarrow> network_msgtype
     \<Rightarrow> network_returncode \<Rightarrow> 'd manager" where
  "respond_to_client ext w us client nonce type ret =
     snd (comm_send_msg ext w us client type (Response_payload nonce ret))"

text \<open>\<open>get_keyholder\<close> looks the keyholder up and inserts a new one when there is
  none. A keyholder is shared by pointer between the table and the handler;
  \<open>set_keyholder\<close> stores the handler's copy back into the table.\<close>

definition get_keyholder :: "'d manager \<Rightarrow> regionid \<Rightarrow> slice \<Rightarrow> 'd manager \<times> keyholder" where
  "get_keyholder w reg k =
     (case map_of (m_keyholders w) (reg, k) of
        Some kh \<Rightarrow> (w, kh)
      | None \<Rightarrow> (w\<lparr>m_keyholders := m_keyholders w @ [((reg, k), new_keyholder)]\<rparr>, new_keyholder))"

definition set_keyholder :: "'d manager \<Rightarrow> regionid \<Rightarrow> slice \<Rightarrow> keyholder \<Rightarrow> 'd manager" where
  "set_keyholder w reg k kh = w\<lparr>m_keyholders := AList.update (reg, k) kh (m_keyholders w)\<rparr>"

definition erase_keyholder :: "'d manager \<Rightarrow> regionid \<Rightarrow> slice \<Rightarrow> 'd manager" where
  "erase_keyholder w reg k = w\<lparr>m_keyholders := AList.delete (reg, k) (m_keyholders w)\<rparr>"

text \<open>\<open>from_disk\<close>: \<open>None\<close> is the return value false; otherwise \<open>has_value\<close>,
  the value, the version and the reference.\<close>

definition from_disk ::
  "'d collaborators \<Rightarrow> 'd manager \<Rightarrow> regionid \<Rightarrow> slice
     \<Rightarrow> (bool \<times> slice list \<times> version \<times> reference) option" where
  "from_disk ext w r k =
     (case data_get ext (m_data w) r k of
        (rc, v, version, rf) \<Rightarrow>
          if rc = SUCCESS then Some (True, v, version, rf)
          else if rc = NOTFOUND then Some (False, v, 0, rf)
          else None)"

text \<open>\<open>retrieve_latest\<close>: the version, \<open>has_old_value\<close>, the value and the
  reference of the latest blocked op, else of the latest committable op, else of the
  disk; \<open>None\<close> is the return value false.\<close>

definition retrieve_latest ::
  "'d collaborators \<Rightarrow> 'd manager \<Rightarrow> regionid \<Rightarrow> slice \<Rightarrow> keyholder
     \<Rightarrow> (version \<times> bool \<times> slice list \<times> reference) option" where
  "retrieve_latest ext w reg k kh =
     (if has_blocked_ops kh then
        Some (fst (last (blocked_ops kh)), has_value (snd (last (blocked_ops kh))),
              p_value (snd (last (blocked_ops kh))), 0)
      else if has_committable_ops kh then
        Some (fst (last (committable_ops kh)), has_value (snd (last (committable_ops kh))),
              p_value (snd (last (committable_ops kh))), 0)
      else (case from_disk ext w reg k of
              None \<Rightarrow> None
            | Some (has_old_value, old_value, old_version, rf) \<Rightarrow>
                Some (old_version, has_old_value, old_value, rf)))"

text \<open>\<open>put_to_disk\<close>: the return value, the manager and the keyholder; \<open>None\<close> when
  there is no op at the version (the code dereferences a null pointer).\<close>

definition put_to_disk ::
  "'d collaborators \<Rightarrow> 'd manager \<Rightarrow> regionid \<Rightarrow> keyholder \<Rightarrow> version
     \<Rightarrow> (bool \<times> 'd manager \<times> keyholder) option" where
  "put_to_disk ext w pending_in kh version =
     (if version \<le> kh_version_on_disk kh then Some (True, w, kh)
      else
        (case get_by_version kh version of
           None \<Rightarrow> None
         | Some p \<Rightarrow>
             let (success, d) =
               (if \<not> has_value p \<or> (subspace pending_in = subspace_next p \<and> subspace pending_in \<noteq> 0)
                then (case data_del ext (m_data w) pending_in (key p) of
                        (rc, d) \<Rightarrow> (rc = SUCCESS, d))
                else if has_value p
                then (case data_put ext (m_data w) pending_in (key p) (p_value p) version of
                        (rc, d) \<Rightarrow> (rc = SUCCESS, d))
                else (True, m_data w))
             in Some (success, w\<lparr>m_data := d\<rparr>, set_version_on_disk version kh)))"

subsection \<open>prev_and_next\<close>

text \<open>
  \<open>prev_and_next\<close> returns its boolean and the pending op as it has left it;
  \<open>None\<close> is a failed \<open>assert\<close> or an \<open>abort()\<close>. \<open>r.subspace + 1\<close> is stored
  into a \<open>uint16_t\<close> and wraps as word addition does.
\<close>

definition prev_and_next ::
  "'d collaborators \<Rightarrow> configuration \<Rightarrow> regionid \<Rightarrow> slice \<Rightarrow> bool \<Rightarrow> slice list \<Rightarrow> bool
     \<Rightarrow> slice list \<Rightarrow> pending \<Rightarrow> (bool \<times> pending) option" where
  "prev_and_next ext cfg r k has_newvalue newvalue has_oldvalue oldvalue pend =
     (let n_subspaces = subspaces cfg (space r) in
      if \<not> 0 < n_subspaces then None
      else
        let pend1 = pend\<lparr>subspace_prev := (if subspace r > 0 then subspace r - 1 else UINT16_MAX),
                          subspace_next := (if unat (subspace r) < n_subspaces - 1
                                            then subspace r + 1 else UINT16_MAX)\<rparr>;
            hasher_this = repl_hasher cfg (get_subspace r)
        in
          (case (if has_oldvalue \<and> has_newvalue
                 then Some (hasher_this k oldvalue, hasher_this k newvalue)
                 else if has_oldvalue
                 then Some (hasher_this k oldvalue, hasher_this k oldvalue)
                 else if has_newvalue
                 then Some (hasher_this k newvalue, hasher_this k newvalue)
                 else None) of
             None \<Rightarrow> None
           | Some (coord_this_old, coord_this_new) \<Rightarrow>
               (case (if contains ext (coord r) coord_this_old \<and> contains ext (coord r) coord_this_new
                      then Some (pend1\<lparr>point_this := point coord_this_new\<rparr>, False)
                      else if contains ext (coord r) coord_this_old
                      then Some
                        ((if subspace_next pend1 \<noteq> UINT16_MAX
                          then pend1\<lparr>point_next_next :=
                                 point (repl_hasher cfg (space r, subspace_next pend1) k oldvalue)\<rparr>
                          else pend1)
                           \<lparr>subspace_next := subspace r,
                            point_this := point coord_this_old,
                            point_next := point coord_this_new\<rparr>, True)
                      else None) of
                  None \<Rightarrow> Some (False, pend1)
                | Some (pend2, set_next) \<Rightarrow>
                    let pend3 =
                          (if subspace_prev pend2 \<noteq> UINT16_MAX then
                             let hasher_prev = repl_hasher cfg (space r, subspace_prev pend2) in
                             if has_oldvalue \<and> has_newvalue
                             then pend2\<lparr>point_prev := point (hasher_prev k newvalue)\<rparr>
                             else if has_oldvalue
                             then pend2\<lparr>point_prev := point (hasher_prev k oldvalue)\<rparr>
                             else if has_newvalue
                             then pend2\<lparr>point_prev := point (hasher_prev k newvalue)\<rparr>
                             else pend2
                           else pend2);
                        pend4 =
                          (if \<not> set_next \<and> subspace_next pend3 \<noteq> UINT16_MAX then
                             let hasher_next = repl_hasher cfg (space r, subspace_next pend3) in
                             if has_oldvalue \<and> has_newvalue
                             then pend3\<lparr>point_next := point (hasher_next k oldvalue)\<rparr>
                             else if has_oldvalue
                             then pend3\<lparr>point_next := point (hasher_next k oldvalue)\<rparr>
                             else if has_newvalue
                             then pend3\<lparr>point_next := point (hasher_next k newvalue)\<rparr>
                             else pend3
                           else pend3)
                    in Some (True, pend4))))"

subsection \<open>A concrete cluster\<close>

text \<open>A configuration and collaborators to run the manager with: one space of three
  subspaces, chains of two replicas, a disk that is an association list, a messenger
  whose sends succeed, and a hasher whose point depends on the subspace and on the
  size of the value.\<close>

type_synonym example_disk = "(keypair \<times> slice list \<times> version) list"

definition example_config :: configuration where
  "example_config =
     \<lparr>quiesce = False,
      quiesce_state_id = [],
      get_schema = (\<lambda>s. Some \<lparr>attrs_sz = 2, attrs = [HYPERDATATYPE_STRING, HYPERDATATYPE_STRING]\<rparr>),
      in_region = (\<lambda>i r. True),
      is_point_leader = (\<lambda>e. subspace e = 0 \<and> number e = 0),
      subspaces = (\<lambda>s. 3),
      repl_hasher = (\<lambda>ss k v. \<lparr>coord_prefix = 64,
                                point = of_nat (length (concat v)) * 256 + ucast (snd ss)\<rparr>),
      instancefor = (\<lambda>e. Instance (Suc (unat (number e)))),
      entityfor = (\<lambda>i r. mk_entityid (space r) (subspace r) (prefix r) (mask_bits r) 0),
      chain_adjacent = (\<lambda>a b. number a + 1 = number b),
      is_tail = (\<lambda>e. number e = 1),
      is_head = (\<lambda>e. number e = 0),
      chain_next = (\<lambda>e. e\<lparr>number := number e + 1\<rparr>),
      sloppy_lookup = (\<lambda>e. e)\<rparr>"

definition example_ext :: "example_disk collaborators" where
  "example_ext =
     \<lparr>contains = (\<lambda>c1 c2. True),
      data_get = (\<lambda>d r k. case map_of d (r, k) of
                              None \<Rightarrow> (NOTFOUND, [], 0, 0)
                            | Some (v, version) \<Rightarrow> (SUCCESS, v, version, 0)),
      data_put = (\<lambda>d r k v version. (SUCCESS, AList.update (r, k) (v, version) d)),
      data_del = (\<lambda>d r k. (SUCCESS, AList.delete (r, k) d)),
      comm_send = (\<lambda>m. True),
      validate_as_type = (\<lambda>k t. True),
      apply_checks_and_ops =
        (\<lambda>sc checks ops k old_value. (length checks + length ops, k, old_value, MICROERR_MALFORMED))\<rparr>"

definition example_region :: regionid where
  "example_region = \<lparr>space = 1, subspace = 1, prefix = 0, mask_bits = 0\<rparr>"

subsection \<open>send_message and move_operations_between_queues\<close>

text \<open>
  \<open>send_message\<close> returns the manager and the op, whose \<open>sent_e\<close> and \<open>sent_i\<close>
  it sets when the send succeeds; \<open>None\<close> is \<open>abort()\<close>. The comparisons with
  \<open>us.subspace + 1\<close> are made on \<open>int\<close>, where the sum does not wrap.
\<close>

definition send_message ::
  "'d collaborators \<Rightarrow> 'd manager \<Rightarrow> entityid \<Rightarrow> version \<Rightarrow> slice \<Rightarrow> pending
     \<Rightarrow> ('d manager \<times> pending) option" where
  "send_message ext w us version k p =
     (let cfg = m_config w;
          normal = (\<lambda>dst.
            let (type, msg) =
                  (if has_value p
                   then (CHAIN_PUT, Put_payload version (if fresh p then 1 else 0) k (p_value p))
                   else (CHAIN_DEL, Del_payload version k));
                (ok, w') = comm_send_msg ext w us dst type msg
            in Some (w', if ok then p\<lparr>sent_e := dst, sent_i := instancefor cfg dst\<rparr> else p))
      in
      if sent_e p \<noteq> entityid_default then Some (w, p)
      else if is_tail cfg us then
        if subspace_next p = UINT16_MAX then
          let (ok, w') = comm_send_msg ext w us us CHAIN_ACK (Ack_payload version k)
          in Some (w', if ok then p\<lparr>sent_e := us, sent_i := m_us w\<rparr> else p)
        else if subspace_next p = subspace us then
          let dst = sloppy_lookup cfg (mk_entityid (space us) (subspace us) 64 (point_next p) 0);
              (ok, w') = comm_send_msg ext w us dst CHAIN_SUBSPACE
                           (Subspace_payload version k (p_value p) (point_next_next p))
          in Some (w', if ok then p\<lparr>sent_e := dst, sent_i := instancefor cfg dst\<rparr> else p)
        else if unat (subspace_next p) = unat (subspace us) + 1 then
          normal (sloppy_lookup cfg (mk_entityid (space us) (subspace_next p) 64 (point_next p) 0))
        else None
      else
        if subspace_prev p = subspace us then
          let dst = chain_next cfg us;
              (ok, w') = comm_send_msg ext w us dst CHAIN_SUBSPACE
                           (Subspace_payload version k (p_value p) (point_next p))
          in Some (w', if ok then p\<lparr>sent_e := dst, sent_i := instancefor cfg dst\<rparr> else p)
        else normal (chain_next cfg us))"

text \<open>The host check that \<open>chain_common\<close> and the first loop of
  \<open>move_operations_between_queues\<close> make on the entity an op was received from.\<close>

definition from_right_host :: "configuration \<Rightarrow> entityid \<Rightarrow> entityid \<Rightarrow> bool" where
  "from_right_host cfg src us \<longleftrightarrow>
     \<not> (\<not> (get_region src = get_region us \<and> chain_adjacent cfg src us) \<and>
        \<not> (space src = space us \<and> unat (subspace src) + 1 = unat (subspace us) \<and>
           is_tail cfg src \<and> is_head cfg us))"

text \<open>
  The first loop (deferred to blocked). The result is the keyholder and whether the
  function goes on to the second loop (\<open>break\<close> or the loop's end) or has returned;
  \<open>None\<close> is a crash: \<open>oldop\<close> is a null pointer when neither queue has an op, and
  the code dereferences it.
\<close>

function deferred_to_blocked ::
  "'d collaborators \<Rightarrow> configuration \<Rightarrow> entityid \<Rightarrow> slice \<Rightarrow> keyholder \<Rightarrow> (bool \<times> keyholder) option" where
  "deferred_to_blocked ext cfg us k kh =
     (case deferred_ops kh of
        [] \<Rightarrow> Some (True, kh)
      | (dv, d) # ds \<Rightarrow>
          let (oldversion, oldop) =
                (if has_blocked_ops kh
                 then (fst (last (blocked_ops kh)), Some (snd (last (blocked_ops kh))))
                 else if has_committable_ops kh
                 then (fst (last (committable_ops kh)), Some (snd (last (committable_ops kh))))
                 else (0, None))
          in
          if oldversion \<ge> dv then
            deferred_to_blocked ext cfg us k (remove_oldest_deferred_op kh)
          else if oldversion + 1 \<noteq> dv then Some (True, kh)
          else
            (case oldop of
               None \<Rightarrow> None
             | Some oldp \<Rightarrow>
                 let newop = (new_pending (d_has_value d) (d_key d) (d_value d) clientop_default)
                       \<lparr>fresh := False, ref := d_ref d, recv_e := from_ent d,
                        recv_i := instancefor cfg (from_ent d)\<rparr>
                 in
                 (case prev_and_next ext cfg (get_region us) k (has_value newop) (p_value newop)
                         (has_value oldp) (p_value oldp) newop of
                    None \<Rightarrow> None
                  | Some (ok, newop') \<Rightarrow>
                      if \<not> ok then Some (False, kh)
                      else if \<not> from_right_host cfg (recv_e newop') us then Some (False, kh)
                      else deferred_to_blocked ext cfg us k
                             (remove_oldest_deferred_op (append_blocked dv newop' kh)))))"
  by pat_completeness auto
termination
  by (relation "measure (\<lambda>(ext, cfg, us, k, kh). length (deferred_ops kh))")
     (auto simp: remove_oldest_deferred_op_def append_blocked_def)

declare deferred_to_blocked.simps [simp del]

text \<open>
  The second loop (blocked to committable). \<open>send_message\<close> writes through the
  pointer to the op, which by then is the newest committable op.
\<close>

definition set_newest_committable_op :: "pending \<Rightarrow> keyholder \<Rightarrow> keyholder" where
  "set_newest_committable_op p kh =
     (case rev (committable_ops kh) of
        [] \<Rightarrow> kh
      | (v, _) # r \<Rightarrow> kh\<lparr>committable_ops := rev ((v, p) # r)\<rparr>)"

function blocked_to_committable ::
  "'d collaborators \<Rightarrow> 'd manager \<Rightarrow> entityid \<Rightarrow> slice \<Rightarrow> keyholder
     \<Rightarrow> ('d manager \<times> keyholder) option" where
  "blocked_to_committable ext w us k kh =
     (case blocked_ops kh of
        [] \<Rightarrow> Some (w, kh)
      | (version, p) # bs \<Rightarrow>
          if (fresh p \<or> \<not> has_value p) \<and> has_committable_ops kh then Some (w, kh)
          else
            let kh1 = transfer_blocked_to_committable kh in
            (case send_message ext w us version k p of
               None \<Rightarrow> None
             | Some (w', p') \<Rightarrow>
                 blocked_to_committable ext w' us k (set_newest_committable_op p' kh1)))"
  by pat_completeness auto
termination
  by (relation "measure (\<lambda>(ext, w, us, k, kh). length (blocked_ops kh))")
     (auto simp: transfer_blocked_to_committable_def set_newest_committable_op_def
           split: list.splits)

declare blocked_to_committable.simps [simp del]

definition move_operations_between_queues ::
  "'d collaborators \<Rightarrow> 'd manager \<Rightarrow> entityid \<Rightarrow> slice \<Rightarrow> keyholder
     \<Rightarrow> ('d manager \<times> keyholder) option" where
  "move_operations_between_queues ext w us k kh =
     (case deferred_to_blocked ext (m_config w) us k kh of
        None \<Rightarrow> None
      | Some (go_on, kh1) \<Rightarrow>
          if go_on then blocked_to_committable ext w us k kh1 else Some (w, kh1))"

subsection \<open>Promotion behind outstanding acks\<close>

text \<open>The ops that wait for the committable queue to drain: fresh ops (creates) and
  deletes.\<close>

definition serialized :: "pending \<Rightarrow> bool" where
  "serialized p \<longleftrightarrow> fresh p \<or> \<not> has_value p"

text \<open>What a call may add to the committable queue: ops at its tail, of which a
  fresh op or a delete can only be the first, and only when the queue was empty.\<close>

definition promoted_behind_acks :: "keyholder \<Rightarrow> keyholder \<Rightarrow> bool" where
  "promoted_behind_acks kh kh' \<longleftrightarrow>
     (\<exists>moved. committable_ops kh' = committable_ops kh @ moved \<and>
        (\<forall>i < length moved. serialized (snd (moved ! i)) \<longrightarrow> i = 0 \<and> committable_ops kh = []))"

text \<open>A manager of the concrete cluster, its point-leader, and a keyholder with a
  delete blocked behind a committable op.\<close>

definition example_manager :: "example_disk manager" where
  "example_manager =
     \<lparr>m_config = example_config, m_us = Instance 1, m_quiesce = False,
      m_quiesce_state_id = [], m_shutdown = False, m_keyholders = [], m_data = [],
      m_comm = [], m_ost = []\<rparr>"

definition example_leader :: entityid where
  "example_leader = mk_entityid 1 0 0 0 0"

definition example_waiting :: keyholder where
  "example_waiting =
     new_keyholder
       \<lparr>blocked_ops := [(2, new_pending False [107] [] clientop_default)],
        committable_ops := [(1, new_pending True [107] [[1]] clientop_default)]\<rparr>"

subsection \<open>The handlers\<close>

text \<open>
  A handler returns the manager as it leaves it; \<open>None\<close> is a crash (a failed
  \<open>assert\<close>, \<open>abort()\<close>, a null pointer dereferenced). A handler works on the
  keyholder the table holds, through a pointer; the model takes the keyholder from
  the table and stores it back when the handler is done with it.
\<close>

text \<open>The loop of \<open>chain_ack\<close> that removes acked ops from the head of the
  committable queue.\<close>

function remove_acked_ops :: "keyholder \<Rightarrow> keyholder" where
  "remove_acked_ops kh =
     (case committable_ops kh of
        [] \<Rightarrow> kh
      | (v, p) # q \<Rightarrow>
          if acked p then remove_acked_ops (remove_oldest_committable_op kh) else kh)"
  by pat_completeness auto
termination
  by (relation "measure (\<lambda>kh. length (committable_ops kh))")
     (auto simp: remove_oldest_committable_op_def)

declare remove_acked_ops.simps [simp del]

definition chain_ack ::
  "'d collaborators \<Rightarrow> 'd manager \<Rightarrow> entityid \<Rightarrow> entityid \<Rightarrow> version \<Rightarrow> slice \<Rightarrow> 'd manager option" where
  "chain_ack ext w0 src dst version k =
     (let (w, kh) = get_keyholder w0 (get_region dst) k in
      case get_by_version kh version of
        None \<Rightarrow> Some w
      | Some pend \<Rightarrow>
          if sent_e pend = entityid_default then Some w
          else if src \<noteq> sent_e pend then Some w
          else
            let w1 = w\<lparr>m_ost := m_ost w @ [(get_region dst, k, version)]\<rparr>;
                pend1 = pend\<lparr>acked := True\<rparr>;
                kh1 = store_op version pend1 kh
            in
            (case put_to_disk ext w1 (get_region dst) kh1 version of
               None \<Rightarrow> None
             | Some (success, w2, kh2) \<Rightarrow>
                 (case move_operations_between_queues ext w2 dst k (remove_acked_ops kh2) of
                    None \<Rightarrow> None
                  | Some (w3, kh3) \<Rightarrow>
                      let (w4, kh4) =
                            (if is_point_leader (m_config w3) dst then
                               if space (co_from (co pend1)) = UINT32_MAX then
                                 (respond_to_client ext w3 dst (co_from (co pend1))
                                    (co_nonce (co pend1)) (retcode pend1) NET_SUCCESS,
                                  store_op version (pend1\<lparr>co := clientop_default\<rparr>) kh3)
                               else (w3, kh3)
                             else (snd (send_ack ext w3 dst (recv_e pend1) version k), kh3))
                      in
                      Some (if kh_empty kh4 then erase_keyholder w4 (get_region dst) k
                            else set_keyholder w4 (get_region dst) k kh4))))"

text \<open>
  \<open>chain_common\<close>, in two parts: up to the point where the predecessor is known
  (\<open>oldversion\<close>, \<open>has_oldvalue\<close>, \<open>oldvalue\<close>, \<open>ref\<close>), and from there on. A
  failed \<open>insert_deferred\<close> leaves the deferred queue as it was.
\<close>

definition chain_common_queue ::
  "'d collaborators \<Rightarrow> 'd manager \<Rightarrow> keyholder \<Rightarrow> bool \<Rightarrow> entityid \<Rightarrow> entityid \<Rightarrow> version \<Rightarrow> bool
     \<Rightarrow> slice \<Rightarrow> slice list \<Rightarrow> version \<Rightarrow> bool \<Rightarrow> slice list \<Rightarrow> reference \<Rightarrow> 'd manager option" where
  "chain_common_queue ext w kh has_val src dst version is_fresh k v oldversion has_oldvalue oldvalue rf =
     (let cfg = m_config w in
      if oldversion = 0 \<and> \<not> is_fresh then
        let newdefer = \<lparr>d_has_value = has_val, d_key = k, d_value = v, from_ent = src,
                         from_inst = instancefor cfg src, d_ref = rf\<rparr>
        in (case insert_deferred version newdefer kh of
              Inl e \<Rightarrow> Some w
            | Inr kh' \<Rightarrow> Some (set_keyholder w (get_region dst) k kh'))
      else
        let newpend = (new_pending has_val k v clientop_default)
              \<lparr>fresh := is_fresh, ref := rf, recv_e := src, recv_i := instancefor cfg src\<rparr>
        in
        (case prev_and_next ext cfg (get_region dst) k has_val v has_oldvalue oldvalue newpend of
           None \<Rightarrow> None
         | Some (ok, newpend') \<Rightarrow>
             if \<not> ok then Some w
             else if \<not> from_right_host cfg src dst then Some w
             else
               (case move_operations_between_queues ext w dst k (append_blocked version newpend' kh) of
                  None \<Rightarrow> None
                | Some (w', kh') \<Rightarrow> Some (set_keyholder w' (get_region dst) k kh'))))"

definition chain_common ::
  "'d collaborators \<Rightarrow> 'd manager \<Rightarrow> bool \<Rightarrow> entityid \<Rightarrow> entityid \<Rightarrow> version \<Rightarrow> bool \<Rightarrow> slice
     \<Rightarrow> slice list \<Rightarrow> 'd manager option" where
  "chain_common ext w0 has_val src dst version is_fresh k v =
     (let (w, kh) = get_keyholder w0 (get_region dst) k;
          cfg = m_config w
      in
      case get_schema cfg (space dst) of
        None \<Rightarrow> None
      | Some sc \<Rightarrow>
          if has_val \<and> attrs_sz sc \<noteq> length v + 1 then Some w
          else
            let oldop = get_by_version kh (version - 1);
                newop = get_by_version kh version
            in
            (case newop of
               Some p \<Rightarrow>
                 let kh' = store_op version (p\<lparr>recv_e := src, recv_i := instancefor cfg src\<rparr>) kh;
                     w' = snd (send_ack ext w dst src version k)
                 in Some (set_keyholder w' (get_region dst) k kh')
             | None \<Rightarrow>
                 (case oldop of
                    Some p \<Rightarrow>
                      chain_common_queue ext w kh has_val src dst version is_fresh k v
                        (version - 1) (has_value p) (p_value p) 0
                  | None \<Rightarrow>
                      (case from_disk ext w (get_region dst) k of
                         None \<Rightarrow> Some w
                       | Some (has_oldvalue, oldvalue, oldversion, rf) \<Rightarrow>
                           if oldversion \<ge> version
                           then Some (snd (send_ack ext w dst src version k))
                           else chain_common_queue ext w kh has_val src dst version is_fresh k v
                                  (if oldversion < version - 1 then 0 else oldversion)
                                  has_oldvalue oldvalue rf))))"

definition chain_put ::
  "'d collaborators \<Rightarrow> 'd manager \<Rightarrow> entityid \<Rightarrow> entityid \<Rightarrow> version \<Rightarrow> bool \<Rightarrow> slice \<Rightarrow> slice list
     \<Rightarrow> 'd manager option" where
  "chain_put ext w src dst newversion is_fresh k newvalue =
     chain_common ext w True src dst newversion is_fresh k newvalue"

definition chain_del ::
  "'d collaborators \<Rightarrow> 'd manager \<Rightarrow> entityid \<Rightarrow> entityid \<Rightarrow> version \<Rightarrow> slice \<Rightarrow> 'd manager option" where
  "chain_del ext w src dst newversion k = chain_common ext w False src dst newversion False k []"

text \<open>
  \<open>client_atomic\<close>. The guard that replies \<open>SERVERERROR\<close> unless dismissed is the
  reply on the two returns that do not dismiss it. \<open>old_value.resize(n)\<close> cuts the
  vector to \<open>n\<close> slices or fills it up with empty ones.
\<close>

definition client_atomic ::
  "'d collaborators \<Rightarrow> 'd manager \<Rightarrow> network_msgtype \<Rightarrow> entityid \<Rightarrow> entityid \<Rightarrow> 64 word \<Rightarrow> bool
     \<Rightarrow> bool \<Rightarrow> slice \<Rightarrow> microcheck list \<Rightarrow> microop list \<Rightarrow> 'd manager option" where
  "client_atomic ext w0 opcode src dst nonce fail_if_not_found fail_if_found k checks ops =
     (if m_quiesce w0 then Some (respond_to_client ext w0 dst src nonce opcode NET_READONLY)
      else
        (case get_schema (m_config w0) (space dst) of
           None \<Rightarrow> None
         | Some sc \<Rightarrow>
             (case attrs sc of
                [] \<Rightarrow> None
              | key_type # _ \<Rightarrow>
                  if \<not> validate_as_type ext k key_type
                  then Some (respond_to_client ext w0 dst src nonce opcode NET_BADDIMSPEC)
                  else if \<not> is_point_leader (m_config w0) dst
                  then Some (respond_to_client ext w0 dst src nonce opcode NET_NOTUS)
                  else
                    let (w, kh) = get_keyholder w0 (get_region dst) k in
                    (case retrieve_latest ext w (get_region dst) k kh of
                       None \<Rightarrow> Some (respond_to_client ext w dst src nonce opcode NET_SERVERERROR)
                     | Some (old_version, has_old_value, old_value, rf) \<Rightarrow>
                         if \<not> has_old_value \<and> fail_if_not_found
                         then Some (respond_to_client ext w dst src nonce opcode NET_NOTFOUND)
                         else if has_old_value \<and> fail_if_found
                         then Some (respond_to_client ext w dst src nonce opcode NET_CMPFAIL)
                         else if length old_value \<noteq> 0 \<and> length old_value + 1 \<noteq> attrs_sz sc
                         then Some (respond_to_client ext w dst src nonce opcode NET_SERVERERROR)
                         else if attrs_sz sc = 0 then None
                         else
                           let is_fresh = \<not> has_old_value;
                               n = attrs_sz sc - 1;
                               old_value' = take n old_value @ replicate (n - length old_value) []
                           in
                           (case apply_checks_and_ops ext sc checks ops k old_value' of
                              (passed, new_key, new_value, error) \<Rightarrow>
                                if passed \<noteq> length checks + length ops
                                then Some (respond_to_client ext w dst src nonce opcode
                                       (if error = MICROERR_OVERFLOW then NET_OVERFLOW else NET_CMPFAIL))
                                else
                                  let new_pend =
                                        (new_pending True k new_value
                                           \<lparr>co_region = get_region dst, co_from = src, co_nonce = nonce\<rparr>)
                                          \<lparr>retcode := opcode, ref := rf, key := new_key, fresh := is_fresh\<rparr>
                                  in
                                  (case prev_and_next ext (m_config w) (get_region dst) (key new_pend)
                                          True (p_value new_pend) has_old_value old_value' new_pend of
                                     None \<Rightarrow> None
                                   | Some (ok, new_pend') \<Rightarrow>
                                       if \<not> ok
                                       then Some (respond_to_client ext w dst src nonce opcode NET_NOTUS)
                                       else if has_deferred_ops kh then None
                                       else
                                         (case move_operations_between_queues ext w dst k
                                                 (append_blocked (old_version + 1) new_pend' kh) of
                                            None \<Rightarrow> None
                                          | Some (w', kh') \<Rightarrow>
                                              Some (set_keyholder w' (get_region dst) k kh'))))))))"

text \<open>
  \<open>reconfigure\<close>. The iterator \<open>khiter\<close> is a position among the keys the table
  held when the loop began, and \<open>m_keyholders.begin()\<close> is position 0; the loop
  goes on while \<open>khiter != m_keyholders.begin()\<close>. \<open>None\<close> is an iterator advanced
  past the end.
\<close>

function reconfigure_loop ::
  "configuration \<Rightarrow> instance_t \<Rightarrow> keypair list \<Rightarrow> nat \<Rightarrow> (keypair \<times> keyholder) list
     \<Rightarrow> (keypair \<times> keyholder) list option" where
  "reconfigure_loop cfg us ks khiter tbl =
     (if khiter \<noteq> 0 then
        if khiter < length ks then
          reconfigure_loop cfg us ks (Suc khiter)
            (if \<not> in_region cfg us (fst (ks ! khiter)) then AList.delete (ks ! khiter) tbl else tbl)
        else None
      else Some tbl)"
  by pat_completeness auto
termination
  by (relation "measure (\<lambda>(cfg, us, ks, khiter, tbl). length ks - khiter)") auto

declare reconfigure_loop.simps [simp del]

definition reconfigure :: "'d manager \<Rightarrow> configuration \<Rightarrow> instance_t \<Rightarrow> 'd manager option" where
  "reconfigure w newconfig us =
     (let w1 = (if quiesce newconfig
                then w\<lparr>m_quiesce_state_id := quiesce_state_id newconfig, m_quiesce := True\<rparr>
                else w);
          w2 = w1\<lparr>m_config := newconfig, m_us := us\<rparr>
      in case reconfigure_loop (m_config w2) us (map fst (m_keyholders w2)) 0 (m_keyholders w2) of
           None \<Rightarrow> None
         | Some tbl \<Rightarrow> Some (w2\<lparr>m_keyholders := tbl\<rparr>))"

text \<open>A client entity, a configuration under which the instance hosts no region, and a
  manager that holds a keyholder.\<close>

definition example_client :: entityid where
  "example_client = mk_entityid UINT32_MAX 0 0 0 7"

definition example_moved_config :: configuration where
  "example_moved_config = example_config\<lparr>in_region := (\<lambda>i r. False)\<rparr>"

definition example_occupied :: "example_disk manager" where
  "example_occupied = example_manager\<lparr>m_keyholders := [((example_region, [107]), example_waiting)]\<rparr>"

text \<open>What \<open>chain_common\<close> leaves of a keyholder when it defers an op: blocked and
  committable as they were, and an op in the deferred queue at the version: the new
  one placed at its version, unless a deferred op held that version already, and
  then the deferred queue as it was.\<close>

definition chain_common_defers :: "keyholder \<Rightarrow> version \<Rightarrow> deferred \<Rightarrow> keyholder \<Rightarrow> bool" where
  "chain_common_defers kh version newdefer kh' \<longleftrightarrow>
     blocked_ops kh' = blocked_ops kh \<and>
     committable_ops kh' = committable_ops kh \<and>
     kh_version_on_disk kh' = kh_version_on_disk kh \<and>
     map_of (deferred_ops kh') version \<noteq> None \<and>
     (map_of (deferred_ops kh) version = None \<longrightarrow>
        deferred_ops kh' = insert_by_version version newdefer (deferred_ops kh) \<and>
        map_of (deferred_ops kh') = (map_of (deferred_ops kh))(version \<mapsto> newdefer)) \<and>
     (map_of (deferred_ops kh) version \<noteq> None \<longrightarrow> deferred_ops kh' = deferred_ops kh)"

text \<open>The second replica of a chain, the replica before it, and a manager whose disk
  holds version 5 of a key.\<close>

definition example_replica :: entityid where
  "example_replica = mk_entityid 1 1 0 0 1"

definition example_upstream :: entityid where
  "example_upstream = mk_entityid 1 1 0 0 0"

definition example_stored :: "example_disk manager" where
  "example_stored = example_manager\<lparr>m_data := [((example_region, [107]), ([[1]], 5))]\<rparr>"

subsection \<open>What chain_ack sends\<close>

text \<open>A chain message is any message but a response to a client.\<close>

definition is_chain_message :: "message \<Rightarrow> bool" where
  "is_chain_message m = (case msg_payload m of Response_payload n r \<Rightarrow> False | _ \<Rightarrow> True)"

text \<open>From one manager to a later one, the configuration is the same and only chain
  messages have been sent.\<close>

definition sends_chain_messages :: "'d manager \<Rightarrow> 'd manager \<Rightarrow> bool" where
  "sends_chain_messages w w' \<longleftrightarrow>
     m_config w' = m_config w \<and>
     (\<exists>new. m_comm w' = m_comm w @ new \<and> list_all is_chain_message new)"

text \<open>What \<open>chain_ack\<close> leaves of the op it acked, should the keyholder still hold
  it: its client op is \<open>c\<close>.\<close>

definition acked_op_has_co :: "'d manager \<Rightarrow> regionid \<Rightarrow> slice \<Rightarrow> version \<Rightarrow> clientop \<Rightarrow> bool" where
  "acked_op_has_co w r k version c \<longleftrightarrow>
     (case map_of (m_keyholders w) (r, k) of
        None \<Rightarrow> True
      | Some kh \<Rightarrow> (case get_by_version kh version of None \<Rightarrow> True | Some p \<Rightarrow> co p = c))"

text \<open>A point-leader that has sent version 1 of a key, written for a client, down the
  chain and waits for the ack; the manager once the ack is in; and a client entity
  whose space is not \<open>UINT32_MAX\<close>.\<close>

definition example_sender :: entityid where
  "example_sender = mk_entityid 1 0 0 0 1"

definition example_sent_op :: "network_msgtype \<Rightarrow> entityid \<Rightarrow> pending" where
  "example_sent_op opcode client =
     (new_pending True [107] [[1]]
        \<lparr>co_region = get_region example_leader, co_from = client, co_nonce = 9\<rparr>)
       \<lparr>retcode := opcode, sent_e := example_sender, sent_i := Instance 2,
        subspace_prev := UINT16_MAX, subspace_next := 1\<rparr>"

definition example_acking :: "network_msgtype \<Rightarrow> entityid \<Rightarrow> example_disk manager" where
  "example_acking opcode client =
     example_manager
       \<lparr>m_keyholders :=
          [((get_region example_leader, [107]),
            new_keyholder\<lparr>committable_ops := [(1, example_sent_op opcode client)]\<rparr>)]\<rparr>"

definition example_acked :: "example_disk manager" where
  "example_acked =
     example_manager
       \<lparr>m_data := [((get_region example_leader, [107]), ([[1]], 1))],
        m_ost := [(get_region example_leader, [107], 1)]\<rparr>"

definition example_peer_client :: entityid where
  "example_peer_client = mk_entityid 7 0 0 0 3"

text \<open>A deferred op at version 9, and a manager whose keyholder holds it.\<close>

definition example_parked :: deferred where
  "example_parked =
     \<lparr>d_has_value = True, d_key = [107], d_value = [[7]], from_ent = example_upstream,
      from_inst = Instance 1, d_ref = 0\<rparr>"

definition example_deferring :: "example_disk manager" where
  "example_deferring =
     example_stored
       \<lparr>m_keyholders :=
          [((example_region, [107]), new_keyholder\<lparr>deferred_ops := [(9, example_parked)]\<rparr>)]\<rparr>"

subsection \<open>Float keys\<close>

text \<open>
  Modelled from the spec: \<open>compare_float\<close> (datatypes/compare.h) is missing from the
  sources. The spec has a float element as a 64-bit IEEE float, 8 bytes
  little-endian, and keys ordered by the key type's comparator; the model is the
  numeric order of IEEE doubles. \<open>float_key\<close> reads the sign and the magnitude:
  \<open>None\<close> for a NaN, which no comparison orders, and 0 for both \<open>+0.0\<close> and
  \<open>-0.0\<close>, which are equal.
\<close>

definition float_key :: "slice \<Rightarrow> int option" where
  "float_key e =
     (let bits = le_value e; magnitude = bits mod 9223372036854775808
      in if magnitude > 9218868437227405312 then None
         else Some (if bits \<ge> 9223372036854775808 then - int magnitude else int magnitude))"

definition compare_float_numeric :: "slice \<Rightarrow> slice \<Rightarrow> bool" where
  "compare_float_numeric lhs rhs =
     (case float_key lhs of
        None \<Rightarrow> False
      | Some a \<Rightarrow> (case float_key rhs of None \<Rightarrow> False | Some b \<Rightarrow> a < b))"




section \<open>Properties of the wire integers\<close>

lemma length_le_bytes [simp]: "length (le_bytes n v) = n"
  by (induction n arbitrary: v) auto

lemma length_be_bytes [simp]: "length (be_bytes n v) = n"
  by (simp add: be_bytes_def)

lemma le_value_le_bytes: "v < 256 ^ n \<Longrightarrow> le_value (le_bytes n v) = v"
proof (induction n arbitrary: v)
  case 0
  then show ?case by simp
next
  case (Suc n)
  have "v div 256 < 256 ^ n"
    using Suc.prems by (simp add: less_mult_imp_div_less mult.commute)
  then have "le_value (le_bytes n (v div 256)) = v div 256"
    by (rule Suc.IH)
  moreover have "unat (of_nat (v mod 256) :: byte) = v mod 256"
    by (simp add: unat_of_nat)
  ultimately show ?case by simp
qed

lemma be_value_be_bytes: "v < 256 ^ n \<Longrightarrow> be_value (be_bytes n v) = v"
  by (simp add: be_value_def be_bytes_def le_value_le_bytes)

lemma unpack_uint_pack:
  "v < 256 ^ n \<Longrightarrow> unpack_uint n (Some (be_bytes n v @ rest)) = Some (v, rest)"
  by (simp add: unpack_uint_def be_value_be_bytes)

lemma unpack_slice_pack:
  "length s < 2 ^ 32 \<Longrightarrow>
   unpack_slice (Some (be_bytes 4 (length s) @ s @ rest)) = Some (s, rest)"
  using unpack_uint_pack [of "length s" 4 "s @ rest"]
  by (simp add: unpack_slice_def)

lemma unat_attr_bound: "unat (a :: 16 word) < 256 ^ 2"
  using unsigned_less [of a, where 'a = nat] by simp

lemma pack_microop_bytes:
  "pack_microop ec lhs m =
     lhs @ be_bytes 2 (unat (attr m))
         @ be_bytes 1 (action_value ec (action m) mod 256)
         @ be_bytes 4 (length (arg1 m) mod 2 ^ 32) @ arg1 m
         @ be_bytes 2 (datatype_value ec (arg1_datatype m) mod 65536)
         @ be_bytes 4 (length (arg2 m) mod 2 ^ 32) @ arg2 m
         @ be_bytes 2 (datatype_value ec (arg2_datatype m) mod 65536)"
proof -
  have "unat (attr m) mod 65536 = unat (attr m)"
    using unat_attr_bound [of "attr m"] by simp
  then show ?thesis
    by (simp add: pack_microop_def pack_uint_def pack_slice_def Let_def)
qed

text \<open>
  C10. Unpacking the bytes that packing a microop produced gives back a microop with
  the same \<open>attr\<close>, \<open>action\<close>, \<open>arg1\<close>, \<open>arg1_datatype\<close>, \<open>arg2\<close> and
  \<open>arg2_datatype\<close>, and leaves the unpacker at the end of those bytes; packing
  writes exactly \<open>pack_size m\<close> bytes, which is
  \<open>2 + 1 + (4 + |arg1|) + 2 + (4 + |arg2|) + 2\<close>. The microop is one that fits the
  wire form: its enumerators fit their one- and two-byte fields and its arguments'
  sizes fit the four-byte size field.
\<close>

theorem microop_pack_unpack_roundtrip:
  assumes "fits_wire ec m"
  shows "unpack_microop ec (Some (pack_microop ec [] m @ rest)) = Some (m, rest) \<and>
         length (pack_microop ec lhs m) = length lhs + pack_size m \<and>
         pack_size m = 2 + 1 + (4 + length (arg1 m)) + 2 + (4 + length (arg2 m)) + 2"
proof -
  from assms have av: "action_value ec (action m) < 256 ^ 1"
    and ao: "action_of ec (action_value ec (action m)) = action m"
    and d1: "datatype_value ec (arg1_datatype m) < 256 ^ 2"
    and d1o: "datatype_of ec (datatype_value ec (arg1_datatype m)) = arg1_datatype m"
    and d2: "datatype_value ec (arg2_datatype m) < 256 ^ 2"
    and d2o: "datatype_of ec (datatype_value ec (arg2_datatype m)) = arg2_datatype m"
    and l1: "length (arg1 m) < 2 ^ 32" and l2: "length (arg2 m) < 2 ^ 32"
    by (simp_all add: fits_wire_def)
  have av': "action_value ec (action m) mod 256 = action_value ec (action m)"
    using av by simp
  have d1': "datatype_value ec (arg1_datatype m) mod 65536 = datatype_value ec (arg1_datatype m)"
    using d1 by simp
  have d2': "datatype_value ec (arg2_datatype m) mod 65536 = datatype_value ec (arg2_datatype m)"
    using d2 by simp
  have l1': "length (arg1 m) mod 2 ^ 32 = length (arg1 m)" using l1 by simp
  have l2': "length (arg2 m) mod 2 ^ 32 = length (arg2 m)" using l2 by simp
  have s1: "\<And>r. unpack_uint 2 (Some (be_bytes 2 (unat (attr m)) @ r)) = Some (unat (attr m), r)"
    by (rule unpack_uint_pack) (rule unat_attr_bound)
  have s2: "\<And>r. unpack_uint 1 (Some (be_bytes 1 (action_value ec (action m)) @ r))
              = Some (action_value ec (action m), r)"
    by (rule unpack_uint_pack) (rule av)
  have s3: "\<And>r. unpack_slice (Some (be_bytes 4 (length (arg1 m)) @ arg1 m @ r)) = Some (arg1 m, r)"
    by (rule unpack_slice_pack) (rule l1)
  have s4: "\<And>r. unpack_uint 2 (Some (be_bytes 2 (datatype_value ec (arg1_datatype m)) @ r))
              = Some (datatype_value ec (arg1_datatype m), r)"
    by (rule unpack_uint_pack) (rule d1)
  have s5: "\<And>r. unpack_slice (Some (be_bytes 4 (length (arg2 m)) @ arg2 m @ r)) = Some (arg2 m, r)"
    by (rule unpack_slice_pack) (rule l2)
  have s6: "\<And>r. unpack_uint 2 (Some (be_bytes 2 (datatype_value ec (arg2_datatype m)) @ r))
              = Some (datatype_value ec (arg2_datatype m), r)"
    by (rule unpack_uint_pack) (rule d2)
  have r1: "unpack_microop ec (Some (pack_microop ec [] m @ rest)) = Some (m, rest)"
    by (simp only: pack_microop_bytes av' d1' d2' l1' l2' append_Nil append_assoc
          unpack_microop_def s1 s2 s3 s4 s5 s6 option.case prod.case ao d1o d2o)
       simp
  have r2: "length (pack_microop ec lhs m) = length lhs + pack_size m"
    by (simp add: pack_microop_bytes pack_size_def)
  have r3: "pack_size m = 2 + 1 + (4 + length (arg1 m)) + 2 + (4 + length (arg2 m)) + 2"
    by (simp add: pack_size_def)
  from r1 r2 r3 show ?thesis by blast
qed

theorem microop_pack_unpack_roundtrip_witness:
  "fits_wire example_casts example_microop \<and>
   unpack_microop example_casts (Some (pack_microop example_casts [] example_microop @ [7]))
     = Some (example_microop, [7]) \<and>
   length (pack_microop example_casts [] example_microop) = 17"
proof -
  have f: "fits_wire example_casts example_microop"
    by (simp add: fits_wire_def example_casts_def example_microop_def)
  have "pack_size example_microop = 17"
    by (simp add: pack_size_def example_microop_def)
  with f microop_pack_unpack_roundtrip [OF f, of "[7]" "[]"] show ?thesis
    by simp
qed

section \<open>Properties of the map encoding\<close>

lemma le_bytes_4:
  "le_bytes 4 v = [of_nat (v mod 256), of_nat (v div 256 mod 256),
                   of_nat (v div 256 div 256 mod 256), of_nat (v div 256 div 256 div 256 mod 256)]"
proof -
  have four: "(4::nat) = Suc (Suc (Suc (Suc 0)))" by simp
  show ?thesis unfolding four by (simp only: le_bytes.simps)
qed

lemma le_value_bound: "le_value bs < 256 ^ length bs"
proof (induction bs)
  case Nil
  then show ?case by simp
next
  case (Cons b bs)
  have "unat b < 256" using unsigned_less [of b, where 'a = nat] by simp
  with Cons show ?case by simp
qed

lemma le_bytes_le_value: "le_bytes (length bs) (le_value bs) = bs"
proof (induction bs)
  case Nil
  then show ?case by simp
next
  case (Cons b bs)
  have b: "unat b < 256" using unsigned_less [of b, where 'a = nat] by simp
  then have "(unat b + 256 * le_value bs) mod 256 = unat b"
    and "(unat b + 256 * le_value bs) div 256 = le_value bs"
    by simp_all
  with Cons show ?case by simp
qed

lemma unpack32le_pack: "n < 2 ^ 32 \<Longrightarrow> unat (unpack32le (le_bytes 4 n @ r)) = n"
  by (simp add: unpack32le_def le_value_le_bytes unat_of_nat)

lemma pack32le_length: "n < 2 ^ 32 \<Longrightarrow> pack32le (of_nat n) = le_bytes 4 n"
  by (simp add: pack32le_def unat_of_nat)

lemma le_bytes_unpack32le:
  assumes "4 \<le> length ptr"
  shows "le_bytes 4 (unat (unpack32le ptr)) = take 4 ptr"
proof -
  have l: "length (take 4 ptr) = 4" using assms by simp
  have "le_value (take 4 ptr) < 256 ^ 4"
    using le_value_bound [of "take 4 ptr"] l by simp
  then have "unat (unpack32le ptr) = le_value (take 4 ptr)"
    by (simp add: unpack32le_def unat_of_nat)
  then show ?thesis
    using le_bytes_le_value [of "take 4 ptr"] l by simp
qed


lemma step_encode_elem:
  "well_formed_elem t e \<Longrightarrow> step t (encode_elem t e @ r) = Some (e, r)"
  by (cases t)
     (simp_all add: step_def encode_elem_def well_formed_elem_def unpack32le_pack Let_def)

lemma encode_elem_nonempty: "well_formed_elem t e \<Longrightarrow> encode_elem t e \<noteq> []"
proof -
  assume "well_formed_elem t e"
  then have "0 < length (encode_elem t e)"
    by (cases t) (simp_all add: encode_elem_def well_formed_elem_def)
  then show ?thesis by auto
qed

lemma step_decodes:
  assumes "step t ptr = Some (e, r)"
  shows "ptr = encode_elem t e @ r \<and> well_formed_elem t e"
proof (cases t)
  case T_string
  from assms have l4: "4 \<le> length ptr"
    and l: "unat (unpack32le ptr) \<le> length (drop 4 ptr)"
    and e: "e = take (unat (unpack32le ptr)) (drop 4 ptr)"
    and r: "r = drop (unat (unpack32le ptr)) (drop 4 ptr)"
    by (auto simp: step_def T_string Let_def split: if_splits)
  have len: "length e = unat (unpack32le ptr)" using e l by simp
  have "unat (unpack32le ptr) < 2 ^ 32"
    using unsigned_less [of "unpack32le ptr", where 'a = nat] by simp
  then have wf: "well_formed_elem t e"
    by (simp add: well_formed_elem_def T_string len)
  have "take 4 ptr @ drop 4 ptr = ptr" by simp
  moreover have "e @ r = drop 4 ptr" unfolding e r by (rule append_take_drop_id)
  ultimately have "ptr = le_bytes 4 (length e) @ e @ r"
    using le_bytes_unpack32le [OF l4] len by simp
  with wf show ?thesis by (simp add: encode_elem_def T_string)
next
  case T_int64
  with assms show ?thesis
    by (auto simp: step_def encode_elem_def well_formed_elem_def split: if_splits)
next
  case T_float
  with assms show ?thesis
    by (auto simp: step_def encode_elem_def well_formed_elem_def split: if_splits)
qed

text \<open>The loop on an encoding: it accepts exactly when each key is above the one
  before it, the first one above \<open>old\<close> when there is one.\<close>

lemma validate_map_loop_encode_pairs:
  assumes "list_all (\<lambda>(k, v). well_formed_elem kt k \<and> well_formed_elem vt v) ps"
  shows "validate_map_loop kt vt lt (encode_pairs kt vt ps) old
           = successively lt (case old of None \<Rightarrow> map fst ps | Some k0 \<Rightarrow> k0 # map fst ps)"
  using assms
proof (induction ps arbitrary: old)
  case Nil
  then show ?case
    by (simp add: encode_pairs_def validate_map_loop.simps [of _ _ _ "[]"] split: option.splits)
next
  case (Cons p ps)
  obtain k v where p: "p = (k, v)" by (cases p)
  from Cons.prems p have wk: "well_formed_elem kt k" and wv: "well_formed_elem vt v"
    and wps: "list_all (\<lambda>(k, v). well_formed_elem kt k \<and> well_formed_elem vt v) ps"
    by simp_all
  let ?rest = "encode_pairs kt vt ps"
  have enc: "encode_pairs kt vt (p # ps) = encode_elem kt k @ encode_elem vt v @ ?rest"
    by (simp add: encode_pairs_def p)
  have ne: "encode_pairs kt vt (p # ps) \<noteq> []"
    using encode_elem_nonempty [OF wk] by (simp add: enc)
  have sk: "step kt (encode_pairs kt vt (p # ps)) = Some (k, encode_elem vt v @ ?rest)"
    unfolding enc by (rule step_encode_elem [OF wk])
  have sv: "step vt (encode_elem vt v @ ?rest) = Some (v, ?rest)"
    by (rule step_encode_elem [OF wv])
  have ih: "validate_map_loop kt vt lt ?rest (Some k) = successively lt (k # map fst ps)"
    using Cons.IH [OF wps, of "Some k"] by simp
  show ?case
    using ne sk sv ih
    by (cases old)
       (simp_all add: p validate_map_loop.simps [of kt vt lt "encode_pairs kt vt ((k, v) # ps)"])
qed

lemma validate_map_loop_decodes:
  "validate_map_loop kt vt lt ptr old \<Longrightarrow>
   \<exists>ps. list_all (\<lambda>(k, v). well_formed_elem kt k \<and> well_formed_elem vt v) ps \<and>
        ptr = encode_pairs kt vt ps"
proof (induction kt vt lt ptr old rule: validate_map_loop.induct)
  case (1 kt vt lt ptr old)
  show ?case
  proof (cases "ptr = []")
    case True
    have "list_all (\<lambda>(k, v). well_formed_elem kt k \<and> well_formed_elem vt v) [] \<and>
          ptr = encode_pairs kt vt []"
      by (simp add: True encode_pairs_def)
    then show ?thesis by blast
  next
    case False
    note unf = validate_map_loop.simps [of kt vt lt ptr old]
    from "1.prems" False obtain key p1 where sk: "step kt ptr = Some (key, p1)"
      by (cases "step kt ptr") (auto simp: unf)
    from "1.prems" False sk obtain val p2 where sv: "step vt p1 = Some (val, p2)"
      by (cases "step vt p1") (auto simp: unf)
    from "1.prems" False sk sv
    have "(if (case old of Some old_key \<Rightarrow> \<not> lt old_key key | None \<Rightarrow> False) then False
           else validate_map_loop kt vt lt p2 (Some key))"
      by (simp add: unf)
    then have ok: "\<not> (case old of Some old_key \<Rightarrow> \<not> lt old_key key | None \<Rightarrow> False)"
      and rest: "validate_map_loop kt vt lt p2 (Some key)"
      by (auto split: if_splits)
    from "1.IH" [OF False sk refl sv refl ok rest]
    obtain ps where wps: "list_all (\<lambda>(k, v). well_formed_elem kt k \<and> well_formed_elem vt v) ps"
      and p2: "p2 = encode_pairs kt vt ps" by blast
    from step_decodes [OF sk] step_decodes [OF sv]
    have "ptr = encode_pairs kt vt ((key, val) # ps)"
      and "list_all (\<lambda>(k, v). well_formed_elem kt k \<and> well_formed_elem vt v) ((key, val) # ps)"
      using wps p2 by (simp_all add: encode_pairs_def)
    then show ?thesis by blast
  qed
qed

text \<open>
  C7. For every byte string \<open>b\<close> and every pair of a key type and a value type,
  \<open>validate_map\<close> returns true exactly when \<open>b\<close> is a concatenation of alternating
  well-formed key and value elements that uses up \<open>b\<close>, with each key strictly above
  the key before it under the key type's comparator. So it returns false when an
  element is truncated or bytes trail (then \<open>b\<close> is no such concatenation) and when a
  key repeats or is out of order (then the keys do not increase). For a transitive
  comparator, keys that increase step by step are sorted as a whole.
\<close>

theorem validate_map_iff_encoding:
  "validate_map kt vt lt b \<longleftrightarrow> is_map_encoding kt vt lt b"
proof
  assume v: "validate_map kt vt lt b"
  then obtain ps where wps: "list_all (\<lambda>(k, v). well_formed_elem kt k \<and> well_formed_elem vt v) ps"
    and b: "b = encode_pairs kt vt ps"
    unfolding validate_map_def using validate_map_loop_decodes by blast
  from v have "successively lt (map fst ps)"
    unfolding validate_map_def b validate_map_loop_encode_pairs [OF wps] by simp
  with wps b show "is_map_encoding kt vt lt b"
    unfolding is_map_encoding_def by blast
next
  assume "is_map_encoding kt vt lt b"
  then obtain ps where wps: "list_all (\<lambda>(k, v). well_formed_elem kt k \<and> well_formed_elem vt v) ps"
    and b: "b = encode_pairs kt vt ps" and s: "successively lt (map fst ps)"
    unfolding is_map_encoding_def by blast
  show "validate_map kt vt lt b"
    unfolding validate_map_def b validate_map_loop_encode_pairs [OF wps] using s by simp
qed

theorem validate_map_iff_encoding_witness:
  "validate_map T_string T_int64 lex_less
     [1, 0, 0, 0, 97, 5, 0, 0, 0, 0, 0, 0, 0, 1, 0, 0, 0, 98, 6, 0, 0, 0, 0, 0, 0, 0] \<and>
   is_map_encoding T_string T_int64 lex_less
     [1, 0, 0, 0, 97, 5, 0, 0, 0, 0, 0, 0, 0, 1, 0, 0, 0, 98, 6, 0, 0, 0, 0, 0, 0, 0] \<and>
   \<not> validate_map T_string T_int64 lex_less
     [1, 0, 0, 0, 97, 5, 0, 0, 0, 0, 0, 0, 0, 1, 0, 0, 0, 97, 6, 0, 0, 0, 0, 0, 0, 0] \<and>
   \<not> is_map_encoding T_string T_int64 lex_less [1, 0, 0, 0, 97, 5, 0, 0, 0, 0, 0, 0, 0, 1]"
proof -
  have v: "validate_map T_string T_int64 lex_less
     [1, 0, 0, 0, 97, 5, 0, 0, 0, 0, 0, 0, 0, 1, 0, 0, 0, 98, 6, 0, 0, 0, 0, 0, 0, 0]"
    by (simp add: validate_map_def validate_map_loop.simps step_def unpack32le_def)
  have d: "\<not> validate_map T_string T_int64 lex_less
     [1, 0, 0, 0, 97, 5, 0, 0, 0, 0, 0, 0, 0, 1, 0, 0, 0, 97, 6, 0, 0, 0, 0, 0, 0, 0]"
    by (simp add: validate_map_def validate_map_loop.simps step_def unpack32le_def)
  have t: "\<not> validate_map T_string T_int64 lex_less [1, 0, 0, 0, 97, 5, 0, 0, 0, 0, 0, 0, 0, 1]"
    by (simp add: validate_map_def validate_map_loop.simps step_def unpack32le_def)
  from v d t show ?thesis
    using validate_map_iff_encoding [of T_string T_int64 lex_less] by simp
qed

section \<open>String values in a map\<close>

lemma APPLY_MAP_fns_sel:
  "step_key (APPLY_MAP_fns env K V W) = K"
  "step_val (APPLY_MAP_fns env K V W) = V"
  "validate_key (APPLY_MAP_fns env K V W) = validate_as K"
  "validate_val (APPLY_MAP_fns env K V W) = validate_as V"
  "compare_pair_less (APPLY_MAP_fns env K V W) = cmp_pair_first (compare env K)"
  "write_key (APPLY_MAP_fns env K V W) = write_elem K"
  "write_val (APPLY_MAP_fns env K V W) = write_elem V"
  "apply_pod_fn (APPLY_MAP_fns env K V W) = apply_pod env V"
  "container (APPLY_MAP_fns env K V W) = HYPERDATATYPE_MAP K V"
  "keyt (APPLY_MAP_fns env K V W) = hyperdatatype_of K"
  "valt (APPLY_MAP_fns env K V W) = hyperdatatype_of V"
  by (simp_all add: APPLY_MAP_fns_def APPLY_MAP_apply_def)

lemma APPLY_MAP_passes_apply_string:
  "apply_pod_fn (APPLY_MAP_fns env KEY_T T_string WRAP_PREFIX) = apply_string"
  by (simp add: APPLY_MAP_fns_sel apply_pod_def)

text \<open>
  C2, as stated: on a map whose values are strings, an \<open>OP_STRING_APPEND\<close> leaves in
  the map a value slice that begins with its \<open>u32\<close> length prefix. It fails:
  appending \<open>a\<close> at key \<open>k\<close> of the empty map stores the one byte \<open>a\<close>. The
  wrapper would have stored \<open>01 00 00 00 a\<close>.
\<close>

theorem string_map_value_prefixed_counterexample:
  "apply_map_microop
     (apply_pod_fn (APPLY_MAP_fns example_env T_string T_string (the_wrap_prefix T_string)))
     [] example_append = Inr [([107], [97])] \<and>
   \<not> begins_with_length_prefix [97] \<and>
   wrap_apply_string [] [example_append] [] = Inr [1, 0, 0, 0, 97]"
  by (simp add: APPLY_MAP_passes_apply_string apply_map_microop_def map_find_def
        map_assign_def example_append_def begins_with_length_prefix_def
        wrap_apply_string_def pack32le_def le_bytes_4)

text \<open>
  C2, amended. For every map whose value type is string, whatever \<open>WRAP_PREFIX\<close>
  the macro is given, the apply function it hands to \<open>apply_map\<close> is \<open>apply_string\<close>
  itself, not the length-prefixing wrapper. So \<open>OP_STRING_APPEND\<close> and
  \<open>OP_STRING_PREPEND\<close> on a map entry store back the old value with the argument
  appended or prepended and no length in front (the old value is empty when the key
  is absent), and an arithmetic micro-op reaches \<open>apply_string\<close> unwrapped as well.
  The length prefix enters when the map is written out: \<open>write_string\<close> puts the
  \<open>u32\<close> little-endian length before the value's bytes, so the emitted pair's value
  bytes begin with the length prefix.
\<close>

theorem string_map_value_unwrapped:
  fixes f :: map_fns and old_value :: slice
  assumes f: "f = APPLY_MAP_fns env KEY_T T_string WRAP_PREFIX"
    and old: "old_value = (case map_find (arg2 opi) m of Some v \<Rightarrow> v | None \<Rightarrow> [])"
  shows "apply_pod_fn f = apply_string \<and>
         (action opi = OP_STRING_APPEND \<longrightarrow>
            apply_map_microop (apply_pod_fn f) m opi
              = Inr (map_assign (arg2 opi) (old_value @ arg1 opi) m) \<and>
            map_find (arg2 opi) (map_assign (arg2 opi) (old_value @ arg1 opi) m)
              = Some (old_value @ arg1 opi)) \<and>
         (action opi = OP_STRING_PREPEND \<longrightarrow>
            apply_map_microop (apply_pod_fn f) m opi
              = Inr (map_assign (arg2 opi) (arg1 opi @ old_value) m) \<and>
            map_find (arg2 opi) (map_assign (arg2 opi) (arg1 opi @ old_value) m)
              = Some (arg1 opi @ old_value)) \<and>
         write_pairs f writeto [(k, v)]
           = writeto @ write_key f k @ pack32le (of_nat (length v)) @ v \<and>
         (length v < 2 ^ 32 \<longrightarrow>
            begins_with_length_prefix (pack32le (of_nat (length v)) @ v))"
proof -
  have a: "apply_pod_fn f = apply_string"
    unfolding f by (rule APPLY_MAP_passes_apply_string)
  have find: "\<And>b. map_find (arg2 opi) (map_assign (arg2 opi) b m) = Some b"
    by (simp add: map_find_def map_assign_def update_conv')
  have app: "action opi = OP_STRING_APPEND \<Longrightarrow>
      apply_map_microop (apply_pod_fn f) m opi = Inr (map_assign (arg2 opi) (old_value @ arg1 opi) m)"
    by (simp add: a apply_map_microop_def old Let_def)
  have pre: "action opi = OP_STRING_PREPEND \<Longrightarrow>
      apply_map_microop (apply_pod_fn f) m opi = Inr (map_assign (arg2 opi) (arg1 opi @ old_value) m)"
    by (simp add: a apply_map_microop_def old Let_def)
  have w: "write_pairs f writeto [(k, v)]
      = writeto @ write_key f k @ pack32le (of_nat (length v)) @ v"
    by (simp add: f APPLY_MAP_fns_sel write_elem_def)
  have p: "length v < 2 ^ 32 \<Longrightarrow> begins_with_length_prefix (pack32le (of_nat (length v)) @ v)"
    by (simp add: begins_with_length_prefix_def pack32le_length)
  show ?thesis
  proof (intro conjI impI)
    show "apply_pod_fn f = apply_string" by (rule a)
    show "write_pairs f writeto [(k, v)]
      = writeto @ write_key f k @ pack32le (of_nat (length v)) @ v" by (rule w)
  qed (simp_all only: find app pre p)
qed

theorem string_map_value_unwrapped_witness:
  "apply_pod_fn (APPLY_MAP_fns example_env T_string T_string Prefix_wrap_apply) = apply_string \<and>
   apply_map_microop (apply_pod_fn (APPLY_MAP_fns example_env T_string T_string Prefix_wrap_apply))
     [([107], [98])] example_append = Inr [([107], [98, 97])] \<and>
   write_pairs (APPLY_MAP_fns example_env T_string T_string Prefix_wrap_apply) [] [([107], [98, 97])]
     = [1, 0, 0, 0, 107, 2, 0, 0, 0, 98, 97] \<and>
   begins_with_length_prefix [2, 0, 0, 0, 98, 97]"
proof -
  have act: "action example_append = OP_STRING_APPEND"
    by (simp add: example_append_def)
  have old: "[98] = (case map_find (arg2 example_append) [([107], [98])] of Some v \<Rightarrow> v | None \<Rightarrow> [])"
    by (simp add: map_find_def example_append_def)
  have len: "length [98 :: byte, 97] < 2 ^ 32" by simp
  note t = string_map_value_unwrapped [OF refl old, of example_env T_string Prefix_wrap_apply
      "[]" "[107]" "[98, 97]"]
  let ?f = "APPLY_MAP_fns example_env T_string T_string Prefix_wrap_apply"
  from t have a: "apply_pod_fn ?f = apply_string" by blast
  from t act have "apply_map_microop (apply_pod_fn ?f) [([107], [98])] example_append
      = Inr (map_assign (arg2 example_append) ([98] @ arg1 example_append) [([107], [98])])"
    by blast
  then have b: "apply_map_microop (apply_pod_fn ?f) [([107], [98])] example_append
      = Inr [([107], [98, 97])]"
    by (simp add: map_assign_def example_append_def)
  from t have "write_pairs ?f [] [([107], [98, 97])]
      = [] @ write_key ?f [107] @ pack32le (of_nat (length [98 :: byte, 97])) @ [98, 97]"
    by blast
  then have w: "write_pairs ?f [] [([107], [98, 97])] = [1, 0, 0, 0, 107, 2, 0, 0, 0, 98, 97]"
    by (simp add: APPLY_MAP_fns_sel write_elem_def pack32le_def le_bytes_4)
  from t len have "begins_with_length_prefix (pack32le (of_nat (length [98 :: byte, 97])) @ [98, 97])"
    by blast
  then have p: "begins_with_length_prefix [2, 0, 0, 0, 98, 97]"
    by (simp add: pack32le_def le_bytes_4)
  from a b w p show ?thesis by blast
qed

section \<open>The output of apply_map\<close>






























section \<open>Chain coordinates\<close>

text \<open>
  C6. For every call to \<open>prev_and_next\<close> where both the old and the new value are
  present and the region contains both hashed coordinates (the normal forward path;
  the number of subspaces is positive, as the code asserts): the call returns true,
  \<open>point_this\<close> is the point of the new value's hash in this subspace,
  \<open>point_prev\<close>, when \<open>subspace_prev\<close> exists (is not \<open>UINT16_MAX\<close>), is the point of
  the hash of the key and the new value under \<open>subspace_prev\<close>'s hasher, and
  \<open>point_next\<close>, when \<open>subspace_next\<close> exists, is the point of the hash of the key
  and the old value under \<open>subspace_next\<close>'s hasher.
\<close>

theorem prev_and_next_forward_points:
  assumes old: "has_oldvalue" and new: "has_newvalue"
    and c_old: "contains ext (coord r) (repl_hasher cfg (get_subspace r) k oldvalue)"
    and c_new: "contains ext (coord r) (repl_hasher cfg (get_subspace r) k newvalue)"
    and n: "0 < subspaces cfg (space r)"
  shows "\<exists>pend'. prev_and_next ext cfg r k has_newvalue newvalue has_oldvalue oldvalue pend
            = Some (True, pend') \<and>
          point_this pend' = point (repl_hasher cfg (get_subspace r) k newvalue) \<and>
          (subspace_prev pend' \<noteq> UINT16_MAX \<longrightarrow>
             point_prev pend' = point (repl_hasher cfg (space r, subspace_prev pend') k newvalue)) \<and>
          (subspace_next pend' \<noteq> UINT16_MAX \<longrightarrow>
             point_next pend' = point (repl_hasher cfg (space r, subspace_next pend') k oldvalue)) \<and>
          subspace_prev pend' = (if subspace r > 0 then subspace r - 1 else UINT16_MAX) \<and>
          subspace_next pend' = (if unat (subspace r) < subspaces cfg (space r) - 1
                                 then subspace r + 1 else UINT16_MAX)"
  using assms by (simp add: prev_and_next_def Let_def)

theorem prev_and_next_forward_points_witness:
  "\<exists>pend'. prev_and_next example_ext example_config example_region [107] True [[1, 2]] True [[1]]
              (new_pending True [107] [[1, 2]] clientop_default) = Some (True, pend') \<and>
           point_this pend' = 513 \<and> subspace_prev pend' = 0 \<and> point_prev pend' = 512 \<and>
           subspace_next pend' = 2 \<and> point_next pend' = 258"
proof -
  have c: "contains example_ext (coord example_region)
             (repl_hasher example_config (get_subspace example_region) [107] [[1]])"
          "contains example_ext (coord example_region)
             (repl_hasher example_config (get_subspace example_region) [107] [[1, 2]])"
    by (simp_all add: example_ext_def)
  have n: "0 < subspaces example_config (space example_region)"
    by (simp add: example_config_def)
  from prev_and_next_forward_points [OF TrueI TrueI c n,
      of "new_pending True [107] [[1, 2]] clientop_default"]
  obtain pend' where r: "prev_and_next example_ext example_config example_region [107] True [[1, 2]]
        True [[1]] (new_pending True [107] [[1, 2]] clientop_default) = Some (True, pend')"
    and t: "point_this pend' = point (repl_hasher example_config (get_subspace example_region) [107] [[1, 2]])"
    and p: "subspace_prev pend' \<noteq> UINT16_MAX \<longrightarrow> point_prev pend'
        = point (repl_hasher example_config (space example_region, subspace_prev pend') [107] [[1, 2]])"
    and x: "subspace_next pend' \<noteq> UINT16_MAX \<longrightarrow> point_next pend'
        = point (repl_hasher example_config (space example_region, subspace_next pend') [107] [[1]])"
    and sp: "subspace_prev pend' = (if subspace example_region > 0 then subspace example_region - 1 else UINT16_MAX)"
    and sn: "subspace_next pend' = (if unat (subspace example_region) < subspaces example_config (space example_region) - 1
                                 then subspace example_region + 1 else UINT16_MAX)"
    by blast
  have sp': "subspace_prev pend' = 0"
    using sp by (simp add: example_region_def)
  have sn': "subspace_next pend' = 2"
    using sn by (simp add: example_region_def example_config_def)
  have "point_this pend' = 513"
    using t by (simp add: example_config_def example_region_def get_subspace_def)
  moreover have "point_prev pend' = 512"
    using p by (simp add: sp' UINT16_MAX_def example_config_def example_region_def)
  moreover have "point_next pend' = 258"
    using x by (simp add: sn' UINT16_MAX_def example_config_def example_region_def)
  ultimately show ?thesis using r sp' sn' by blast
qed

section \<open>Moving operations between queues\<close>

lemma comm_send_msg_cases:
  obtains ok w' where "comm_send_msg ext w src dst type msg = (ok, w')"
  by (cases "comm_send_msg ext w src dst type msg") auto

lemma send_message_keeps_kind:
  assumes "send_message ext w us version k p = Some (w', p')"
  shows "fresh p' = fresh p \<and> has_value p' = has_value p"
  using assms
  by (auto simp: send_message_def Let_def split: if_splits prod.splits)

lemma committable_after_transfer:
  "blocked_ops kh = (v, p) # bs \<Longrightarrow>
   committable_ops (set_newest_committable_op p' (transfer_blocked_to_committable kh))
     = committable_ops kh @ [(v, p')]"
  by (simp add: set_newest_committable_op_def transfer_blocked_to_committable_def)

lemma blocked_to_committable_behind_acks:
  "blocked_to_committable ext w us k kh = Some (w', kh') \<Longrightarrow> promoted_behind_acks kh kh'"
proof (induction ext w us k kh arbitrary: w' kh' rule: blocked_to_committable.induct)
  case (1 ext w us k kh)
  note unf = blocked_to_committable.simps [of ext w us k kh]
  show ?case
  proof (cases "blocked_ops kh")
    case Nil
    with "1.prems" have "kh' = kh" by (simp add: unf)
    then show ?thesis by (simp add: promoted_behind_acks_def)
  next
    case (Cons b bs)
    obtain version p where b: "b = (version, p)" by (cases b)
    show ?thesis
    proof (cases "(fresh p \<or> \<not> has_value p) \<and> has_committable_ops kh")
      case True
      with "1.prems" Cons b have "kh' = kh" by (simp add: unf)
      then show ?thesis by (simp add: promoted_behind_acks_def)
    next
      case False
      from "1.prems" Cons b False obtain w1 p1
        where s: "send_message ext w us version k p = Some (w1, p1)"
          and r: "blocked_to_committable ext w1 us k
                    (set_newest_committable_op p1 (transfer_blocked_to_committable kh)) = Some (w', kh')"
        by (auto simp: unf Let_def split: option.splits)
      let ?kh2 = "set_newest_committable_op p1 (transfer_blocked_to_committable kh)"
      have c2: "committable_ops ?kh2 = committable_ops kh @ [(version, p1)]"
        using Cons b by (simp add: committable_after_transfer)
      from "1.IH" [OF Cons b [symmetric] False refl s refl r]
      obtain moved where m: "committable_ops kh' = committable_ops ?kh2 @ moved"
        and ok: "\<forall>i < length moved. serialized (snd (moved ! i)) \<longrightarrow> i = 0 \<and> committable_ops ?kh2 = []"
        unfolding promoted_behind_acks_def by blast
      have none: "\<forall>i < length moved. \<not> serialized (snd (moved ! i))"
        using ok c2 by auto
      have first: "serialized p1 \<longrightarrow> committable_ops kh = []"
        using False send_message_keeps_kind [OF s]
        by (auto simp: serialized_def has_committable_ops_def)
      have "committable_ops kh' = committable_ops kh @ ((version, p1) # moved)"
        using m c2 by simp
      moreover have "\<forall>i < length ((version, p1) # moved).
          serialized (snd (((version, p1) # moved) ! i)) \<longrightarrow> i = 0 \<and> committable_ops kh = []"
        using none first by (auto simp: nth_Cons split: nat.splits)
      ultimately show ?thesis unfolding promoted_behind_acks_def by blast
    qed
  qed
qed

lemma deferred_to_blocked_queues:
  "deferred_to_blocked ext cfg us k kh = Some (go_on, kh') \<Longrightarrow>
   committable_ops kh' = committable_ops kh \<and>
   (\<exists>added. blocked_ops kh' = blocked_ops kh @ added)"
proof (induction ext cfg us k kh arbitrary: go_on kh' rule: deferred_to_blocked.induct)
  case (1 ext cfg us k kh)
  note unf = deferred_to_blocked.simps [of ext cfg us k kh]
  show ?case
  proof (cases "deferred_ops kh")
    case Nil
    with "1.prems" show ?thesis by (simp add: unf)
  next
    case (Cons a ds)
    obtain dv d where a: "a = (dv, d)" by (cases a)
    let ?old = "if has_blocked_ops kh
                 then (fst (last (blocked_ops kh)), Some (snd (last (blocked_ops kh))))
                 else if has_committable_ops kh
                 then (fst (last (committable_ops kh)), Some (snd (last (committable_ops kh))))
                 else (0, None)"
    obtain oldversion oldop where old: "(oldversion, oldop) = ?old"
      by (cases ?old) auto
    note unf' = unf [unfolded Cons a list.case prod.case old [symmetric]]
    show ?thesis
    proof (cases "oldversion \<ge> dv")
      case True
      with "1.prems" have r: "deferred_to_blocked ext cfg us k (remove_oldest_deferred_op kh)
          = Some (go_on, kh')"
        by (simp add: unf')
      from "1.IH"(1) [OF Cons a [symmetric] refl old True r]
      show ?thesis by (simp add: remove_oldest_deferred_op_def)
    next
      case False
      show ?thesis
      proof (cases "oldversion + 1 \<noteq> dv")
        case True
        with "1.prems" False show ?thesis by (simp add: unf')
      next
        case next_version: False
        from "1.prems" False next_version obtain oldp where oldp: "oldop = Some oldp"
          by (cases oldop) (auto simp: unf')
        let ?newop = "(new_pending (d_has_value d) (d_key d) (d_value d) clientop_default)
                       \<lparr>fresh := False, ref := d_ref d, recv_e := from_ent d,
                        recv_i := instancefor cfg (from_ent d)\<rparr>"
        let ?pn = "prev_and_next ext cfg (get_region us) k (has_value ?newop) (p_value ?newop)
                         (has_value oldp) (p_value oldp) ?newop"
        from "1.prems" False next_version oldp obtain ok newop' where pn: "?pn = Some (ok, newop')"
          by (cases ?pn) (auto simp: unf' Let_def)
        show ?thesis
        proof (cases "ok \<and> from_right_host cfg (recv_e newop') us")
          case stop: False
          with "1.prems" False next_version oldp pn show ?thesis
            by (auto simp: unf' Let_def split: if_splits)
        next
          case True
          with "1.prems" False next_version oldp pn
          have r: "deferred_to_blocked ext cfg us k
                     (remove_oldest_deferred_op (append_blocked dv newop' kh)) = Some (go_on, kh')"
            by (auto simp: unf' Let_def)
          from True have ok: "\<not> \<not> ok" and h: "\<not> \<not> from_right_host cfg (recv_e newop') us"
            by simp_all
          from "1.IH"(2) [OF Cons a [symmetric] refl old False next_version oldp refl pn refl ok h r]
          show ?thesis by (auto simp: remove_oldest_deferred_op_def append_blocked_def)
        qed
      qed
    qed
  qed
qed

text \<open>
  C5. In \<open>move_operations_between_queues\<close> the oldest blocked op is never
  transferred to committable while \<open>op.fresh || !op.has_value\<close> holds and the
  committable queue is non-empty. Whatever a call promotes goes to the tail of the
  committable queue, and a fresh op or a delete among the promoted ops is the first
  of them and found the queue empty. When the oldest blocked op is fresh or a delete
  and the committable queue is not empty, the second loop stops at once, and the
  whole call sends no message, leaves the committable queue as it was and keeps that
  op the oldest blocked op.
\<close>

theorem fresh_and_deletes_wait_for_acks:
  "(move_operations_between_queues ext w us k kh = Some (w', kh') \<longrightarrow>
      promoted_behind_acks kh kh') \<and>
   (blocked_ops kh = (version, p) # bs \<and> serialized p \<and> has_committable_ops kh \<longrightarrow>
      blocked_to_committable ext w us k kh = Some (w, kh) \<and>
      (move_operations_between_queues ext w us k kh = Some (w', kh') \<longrightarrow>
         w' = w \<and> committable_ops kh' = committable_ops kh \<and>
         (\<exists>added. blocked_ops kh' = (version, p) # bs @ added)))"
proof -
  have A: "promoted_behind_acks kh kh'"
    if m: "move_operations_between_queues ext w us k kh = Some (w', kh')"
  proof -
    from m obtain go_on kh1 where a: "deferred_to_blocked ext (m_config w) us k kh = Some (go_on, kh1)"
      and b: "if go_on then blocked_to_committable ext w us k kh1 = Some (w', kh') else kh' = kh1"
      by (auto simp: move_operations_between_queues_def split: option.splits if_splits)
    have c: "committable_ops kh1 = committable_ops kh"
      using deferred_to_blocked_queues [OF a] by blast
    show ?thesis
    proof (cases go_on)
      case True
      with b have "promoted_behind_acks kh1 kh'"
        by (simp add: blocked_to_committable_behind_acks)
      then show ?thesis by (simp add: promoted_behind_acks_def c)
    next
      case False
      with b c show ?thesis by (simp add: promoted_behind_acks_def)
    qed
  qed
  have B: "blocked_to_committable ext w us k kh = Some (w, kh)"
    if h: "blocked_ops kh = (version, p) # bs \<and> serialized p \<and> has_committable_ops kh"
    using h by (simp add: blocked_to_committable.simps [of ext w us k kh] serialized_def)
  have C: "w' = w \<and> committable_ops kh' = committable_ops kh \<and>
         (\<exists>added. blocked_ops kh' = (version, p) # bs @ added)"
    if h: "blocked_ops kh = (version, p) # bs \<and> serialized p \<and> has_committable_ops kh"
      and m: "move_operations_between_queues ext w us k kh = Some (w', kh')"
  proof -
    from m obtain go_on kh1 where a: "deferred_to_blocked ext (m_config w) us k kh = Some (go_on, kh1)"
      and b: "if go_on then blocked_to_committable ext w us k kh1 = Some (w', kh') else (w' = w \<and> kh' = kh1)"
      by (auto simp: move_operations_between_queues_def split: option.splits if_splits)
    from deferred_to_blocked_queues [OF a] obtain added
      where c: "committable_ops kh1 = committable_ops kh"
        and bl: "blocked_ops kh1 = blocked_ops kh @ added" by blast
    have stop: "blocked_to_committable ext w us k kh1 = Some (w, kh1)"
      using h c bl
      by (simp add: blocked_to_committable.simps [of ext w us k kh1] serialized_def
            has_committable_ops_def)
    from b stop have "w' = w \<and> kh' = kh1" by (auto split: if_splits)
    with c bl h show ?thesis by simp
  qed
  from A B C show ?thesis by blast
qed

theorem fresh_and_deletes_wait_for_acks_witness:
  "blocked_ops example_waiting = [(2, new_pending False [107] [] clientop_default)] \<and>
   serialized (new_pending False [107] [] clientop_default) \<and>
   has_committable_ops example_waiting \<and>
   move_operations_between_queues example_ext example_manager example_leader [107] example_waiting
     = Some (example_manager, example_waiting) \<and>
   promoted_behind_acks example_waiting example_waiting"
proof -
  have h: "blocked_ops example_waiting = (2, new_pending False [107] [] clientop_default) # [] \<and>
      serialized (new_pending False [107] [] clientop_default) \<and>
      has_committable_ops example_waiting"
    by (simp add: example_waiting_def new_keyholder_def serialized_def new_pending_def
          has_committable_ops_def)
  have d: "deferred_to_blocked example_ext (m_config example_manager) example_leader [107]
      example_waiting = Some (True, example_waiting)"
    by (simp add: deferred_to_blocked.simps example_waiting_def new_keyholder_def)
  note t = fresh_and_deletes_wait_for_acks [of example_ext example_manager example_leader "[107]"
      example_waiting example_manager example_waiting 2 "new_pending False [107] [] clientop_default" "[]"]
  from t h have "blocked_to_committable example_ext example_manager example_leader [107]
      example_waiting = Some (example_manager, example_waiting)"
    by blast
  with d have m: "move_operations_between_queues example_ext example_manager example_leader [107]
      example_waiting = Some (example_manager, example_waiting)"
    by (simp add: move_operations_between_queues_def)
  with t have "promoted_behind_acks example_waiting example_waiting" by blast
  with h m show ?thesis by simp
qed

section \<open>Quiescing and reconfiguring\<close>

text \<open>
  C9. Whenever the quiesce flag is set at entry to \<open>client_atomic\<close>, the call
  replies \<open>READONLY\<close> to the client and returns: the manager it leaves differs from
  the one it found only by that one reply among the messages sent. No keyholder is
  created or changed, nothing is enqueued, nothing reaches the disk, and no
  \<open>SUCCESS\<close> reply is sent.
\<close>

theorem client_atomic_quiescing_readonly:
  assumes "m_quiesce w"
  shows "client_atomic ext w opcode src dst nonce fail_if_not_found fail_if_found k checks ops
           = Some (w\<lparr>m_comm := m_comm w @
                [\<lparr>msg_from = dst, msg_to = src, msg_type = opcode,
                  msg_payload = Response_payload nonce NET_READONLY\<rparr>]\<rparr>)"
  using assms
  by (simp add: client_atomic_def respond_to_client_def comm_send_msg_def Let_def)

theorem client_atomic_quiescing_readonly_witness:
  "m_quiesce (example_manager\<lparr>m_quiesce := True\<rparr>) \<and>
   client_atomic example_ext (example_manager\<lparr>m_quiesce := True\<rparr>) RESP_ATOMIC example_client
       example_leader 9 False False [107] [] []
     = Some (example_manager\<lparr>m_quiesce := True,
          m_comm := [\<lparr>msg_from = example_leader, msg_to = example_client, msg_type = RESP_ATOMIC,
                      msg_payload = Response_payload 9 NET_READONLY\<rparr>]\<rparr>)"
proof -
  have q: "m_quiesce (example_manager\<lparr>m_quiesce := True\<rparr>)" by simp
  from client_atomic_quiescing_readonly [OF q, of example_ext RESP_ATOMIC example_client
      example_leader 9 False False "[107]" "[]" "[]"]
  show ?thesis by (simp add: example_manager_def)
qed

text \<open>The loop of \<open>reconfigure\<close> starts at \<open>begin()\<close> and goes on while the iterator
  differs from \<open>begin()\<close>: its body never runs, and the table is left as it was.\<close>

lemma reconfigure_removes_nothing:
  "\<exists>w'. reconfigure w newconfig us = Some w' \<and> m_keyholders w' = m_keyholders w"
  by (simp add: reconfigure_def reconfigure_loop.simps [of _ _ _ 0] Let_def)

text \<open>
  C3 says that after \<open>reconfigure(newconfig, us)\<close> every keyholder whose region
  \<open>us\<close> no longer hosts under \<open>newconfig\<close> is gone from the table. The code does not
  do that: with one keyholder in the table, in a region the new configuration no
  longer gives to the instance, the keyholder is still in the table afterwards.
\<close>

theorem reconfigure_keeps_unhosted_keyholder:
  "\<not> in_region example_moved_config (Instance 1) example_region \<and>
   map_of (m_keyholders example_occupied) (example_region, [107]) = Some example_waiting \<and>
   (case reconfigure example_occupied example_moved_config (Instance 1) of
      None \<Rightarrow> None
    | Some w' \<Rightarrow> map_of (m_keyholders w') (example_region, [107])) = Some example_waiting"
  by (simp add: reconfigure_def reconfigure_loop.simps [of _ _ _ 0] Let_def
        example_moved_config_def example_occupied_def)

section \<open>Chain messages against the disk version\<close>

lemma get_keyholder_facts:
  assumes "get_keyholder w r k = (w1, kh)"
  shows "m_comm w1 = m_comm w" "m_data w1 = m_data w" "m_config w1 = m_config w"
    "m_ost w1 = m_ost w" "m_us w1 = m_us w"
    "map_of (m_keyholders w1) (r, k) = Some kh"
  using assms by (auto simp: get_keyholder_def map_add_def split: option.splits)

lemma from_disk_data: "m_data w1 = m_data w \<Longrightarrow> from_disk ext w1 r k = from_disk ext w r k"
  by (simp add: from_disk_def)

lemma set_keyholder_facts:
  "m_comm (set_keyholder w r k kh) = m_comm w"
  "m_data (set_keyholder w r k kh) = m_data w"
  "m_config (set_keyholder w r k kh) = m_config w"
  "map_of (m_keyholders (set_keyholder w r k kh)) (r, k) = Some kh"
  by (simp_all add: set_keyholder_def update_conv')

lemma map_of_insert_by_version:
  "map_of q v = None \<Longrightarrow> map_of (insert_by_version v x q) = (map_of q)(v \<mapsto> x)"
proof (induction q)
  case Nil
  then show ?case by simp
next
  case (Cons a q)
  obtain v' x' where a: "a = (v', x')" by (cases a)
  from Cons.prems a have ne: "v' \<noteq> v" and n: "map_of q v = None"
    by (auto split: if_splits)
  show ?case using Cons.IH [OF n] ne by (auto simp: a fun_upd_twist)
qed

lemma version_gap:
  fixes oldversion version :: version
  assumes "unat oldversion + 1 < unat version"
  shows "\<not> version \<le> oldversion" and "oldversion < version - 1"
proof -
  from assms have nz: "version \<noteq> 0" by (auto simp: unat_eq_0)
  have m: "unat (version - 1) = unat version - 1"
    using nz by (simp add: unat_minus_one)
  show "\<not> version \<le> oldversion" using assms by (simp add: word_le_nat_alt)
  show "oldversion < version - 1" using assms m by (simp add: word_less_nat_alt)
qed

lemma insert_deferred_defers:
  "chain_common_defers kh version newdefer
     (case insert_deferred version newdefer kh of Inl e \<Rightarrow> kh | Inr kh' \<Rightarrow> kh')"
  by (auto simp: chain_common_defers_def insert_deferred_def map_of_insert_by_version)

text \<open>
  C4, amended. For every \<open>CHAIN_PUT\<close> or \<open>CHAIN_DEL\<close> that \<open>chain_common\<close> takes as
  far as reading the version from disk (the arity check passes, and the keyholder
  has an op neither at the version nor at the version before it): if the version
  read from disk is at least the message's version, the handler acks the sender and
  leaves the keyholder unchanged; if the disk version is below \<open>version - 1\<close> and the
  message is not fresh, the handler returns without appending to blocked or
  committable and without sending a message, and the op is put into the deferred
  queue at its version, unless the deferred queue holds an op at that version
  already: then \<open>insert_deferred\<close> fails and the deferred queue stays as it was.
\<close>

theorem chain_common_disk_version:
  assumes kh: "get_keyholder w (get_region dst) k = (w1, kh)"
    and sc: "get_schema (m_config w) (space dst) = Some sc"
    and arity: "\<not> (has_val \<and> attrs_sz sc \<noteq> length v + 1)"
    and no_new: "get_by_version kh version = None"
    and no_old: "get_by_version kh (version - 1) = None"
    and disk: "from_disk ext w (get_region dst) k = Some (has_oldvalue, oldvalue, oldversion, rf)"
  shows "(oldversion \<ge> version \<longrightarrow>
            chain_common ext w has_val src dst version is_fresh k v
              = Some (w1\<lparr>m_comm := m_comm w @
                   [\<lparr>msg_from = dst, msg_to = src, msg_type = CHAIN_ACK,
                     msg_payload = Ack_payload version k\<rparr>]\<rparr>) \<and>
            map_of (m_keyholders w1) (get_region dst, k) = Some kh) \<and>
         (unat oldversion + 1 < unat version \<and> \<not> is_fresh \<longrightarrow>
            (\<exists>w' kh'. chain_common ext w has_val src dst version is_fresh k v = Some w' \<and>
               m_comm w' = m_comm w \<and> m_data w' = m_data w \<and>
               map_of (m_keyholders w') (get_region dst, k) = Some kh' \<and>
               chain_common_defers kh version
                 \<lparr>d_has_value = has_val, d_key = k, d_value = v, from_ent = src,
                   from_inst = instancefor (m_config w) src, d_ref = rf\<rparr> kh'))"
proof -
  note g = get_keyholder_facts [OF kh]
  have disk1: "from_disk ext w1 (get_region dst) k = Some (has_oldvalue, oldvalue, oldversion, rf)"
    using disk from_disk_data [OF g(2)] by simp
  have A: "chain_common ext w has_val src dst version is_fresh k v
              = Some (w1\<lparr>m_comm := m_comm w @
                   [\<lparr>msg_from = dst, msg_to = src, msg_type = CHAIN_ACK,
                     msg_payload = Ack_payload version k\<rparr>]\<rparr>)"
    if "oldversion \<ge> version"
    using that arity
    by (auto simp: chain_common_def kh g sc no_new no_old disk1 send_ack_def comm_send_msg_def
          Let_def)
  let ?d = "\<lparr>d_has_value = has_val, d_key = k, d_value = v, from_ent = src,
                   from_inst = instancefor (m_config w) src, d_ref = rf\<rparr>"
  have B: "\<exists>w' kh'. chain_common ext w has_val src dst version is_fresh k v = Some w' \<and>
               m_comm w' = m_comm w \<and> m_data w' = m_data w \<and>
               map_of (m_keyholders w') (get_region dst, k) = Some kh' \<and>
               chain_common_defers kh version ?d kh'"
    if gap: "unat oldversion + 1 < unat version" and nf: "\<not> is_fresh"
  proof -
    note vg = version_gap [OF gap]
    have c: "chain_common ext w has_val src dst version is_fresh k v
        = (case insert_deferred version ?d kh of
             Inl e \<Rightarrow> Some w1
           | Inr kh' \<Rightarrow> Some (set_keyholder w1 (get_region dst) k kh'))"
      using arity vg nf
      by (auto simp: chain_common_def kh g sc no_new no_old disk1 chain_common_queue_def Let_def)
    show ?thesis
    proof (cases "insert_deferred version ?d kh")
      case (Inl e)
      with c g insert_deferred_defers [of kh version ?d] show ?thesis by auto
    next
      case (Inr kh')
      with c g insert_deferred_defers [of kh version ?d] show ?thesis
        by (auto simp: set_keyholder_facts)
    qed
  qed
  from A B g(6) show ?thesis by blast
qed

theorem chain_common_disk_version_witness:
  "from_disk example_ext example_stored (get_region example_replica) [107] = Some (True, [[1]], 5, 0) \<and>
   chain_common example_ext example_stored True example_upstream example_replica 3 False [107] [[2]]
     = Some (example_stored
          \<lparr>m_keyholders := [((example_region, [107]), new_keyholder)],
           m_comm := [\<lparr>msg_from = example_replica, msg_to = example_upstream, msg_type = CHAIN_ACK,
                       msg_payload = Ack_payload 3 [107]\<rparr>]\<rparr>) \<and>
   (\<exists>w' kh'. chain_common example_ext example_stored True example_upstream example_replica 9 False
                [107] [[2]] = Some w' \<and>
      m_comm w' = [] \<and>
      map_of (m_keyholders w') (example_region, [107]) = Some kh' \<and>
      blocked_ops kh' = [] \<and> committable_ops kh' = [] \<and>
      map_of (deferred_ops kh') 9
        = Some \<lparr>d_has_value = True, d_key = [107], d_value = [[2]], from_ent = example_upstream,
                 from_inst = Instance 1, d_ref = 0\<rparr>)"
proof -
  let ?w1 = "example_stored\<lparr>m_keyholders := [((example_region, [107]), new_keyholder)]\<rparr>"
  have r: "get_region example_replica = example_region"
    by (simp add: get_region_def example_replica_def example_region_def mk_entityid_def)
  have kh: "get_keyholder example_stored (get_region example_replica) [107] = (?w1, new_keyholder)"
    by (simp add: get_keyholder_def example_stored_def example_manager_def r)
  have sc: "get_schema (m_config example_stored) (space example_replica)
      = Some \<lparr>attrs_sz = 2, attrs = [HYPERDATATYPE_STRING, HYPERDATATYPE_STRING]\<rparr>"
    by (simp add: example_stored_def example_manager_def example_config_def)
  have arity: "\<not> (True \<and> attrs_sz \<lparr>attrs_sz = 2, attrs = [HYPERDATATYPE_STRING, HYPERDATATYPE_STRING]\<rparr>
      \<noteq> length [[2 :: byte]] + 1)"
    by simp
  have none: "\<And>v. get_by_version new_keyholder v = None"
    by (simp add: get_by_version_def new_keyholder_def)
  have disk: "from_disk example_ext example_stored (get_region example_replica) [107]
      = Some (True, [[1]], 5, 0)"
    by (simp add: from_disk_def example_ext_def example_stored_def r)
  have inst: "instancefor (m_config example_stored) example_upstream = Instance 1"
    by (simp add: example_stored_def example_manager_def example_config_def example_upstream_def
          mk_entityid_def)
  note t = chain_common_disk_version [OF kh sc arity none none disk]
  have ack: "chain_common example_ext example_stored True example_upstream example_replica 3 False
      [107] [[2]]
     = Some (example_stored
          \<lparr>m_keyholders := [((example_region, [107]), new_keyholder)],
           m_comm := [\<lparr>msg_from = example_replica, msg_to = example_upstream, msg_type = CHAIN_ACK,
                       msg_payload = Ack_payload 3 [107]\<rparr>]\<rparr>)"
    using t [of 3 example_upstream False] by (simp add: example_stored_def example_manager_def)
  from t [of 9 example_upstream False] obtain w' kh'
    where c: "chain_common example_ext example_stored True example_upstream example_replica 9 False
                [107] [[2]] = Some w'"
      and m: "m_comm w' = m_comm example_stored"
      and k: "map_of (m_keyholders w') (get_region example_replica, [107]) = Some kh'"
      and d: "chain_common_defers new_keyholder 9
                 \<lparr>d_has_value = True, d_key = [107], d_value = [[2]], from_ent = example_upstream,
                   from_inst = instancefor (m_config example_stored) example_upstream, d_ref = 0\<rparr> kh'"
    by auto
  from d have "blocked_ops kh' = [] \<and> committable_ops kh' = [] \<and>
      map_of (deferred_ops kh') 9
        = Some \<lparr>d_has_value = True, d_key = [107], d_value = [[2]], from_ent = example_upstream,
                 from_inst = Instance 1, d_ref = 0\<rparr>"
    by (simp add: chain_common_defers_def new_keyholder_def inst)
  with c m k disk ack show ?thesis
    by (auto simp: r example_stored_def example_manager_def)
qed

section \<open>Acknowledgements\<close>

lemma sends_chain_messages_refl: "sends_chain_messages w w"
  by (simp add: sends_chain_messages_def)

lemma sends_chain_messages_trans:
  "sends_chain_messages w w' \<Longrightarrow> sends_chain_messages w' w'' \<Longrightarrow> sends_chain_messages w w''"
  by (auto simp: sends_chain_messages_def)

lemma comm_send_msg_chain:
  "comm_send_msg ext w src dst type msg = (ok, w') \<Longrightarrow>
   (\<forall>n r. msg \<noteq> Response_payload n r) \<Longrightarrow> sends_chain_messages w w'"
  by (cases msg) (auto simp: comm_send_msg_def Let_def sends_chain_messages_def is_chain_message_def)

lemma send_message_sends:
  assumes "send_message ext w us version k p = Some (w', p')"
  shows "sends_chain_messages w w'"
  using assms
  by (auto simp: send_message_def Let_def sends_chain_messages_refl
      split: if_splits prod.splits dest!: comm_send_msg_chain)

lemma blocked_to_committable_sends:
  "blocked_to_committable ext w us k kh = Some (w', kh') \<Longrightarrow> sends_chain_messages w w'"
proof (induction ext w us k kh arbitrary: w' kh' rule: blocked_to_committable.induct)
  case (1 ext w us k kh)
  note unf = blocked_to_committable.simps [of ext w us k kh]
  show ?case
  proof (cases "blocked_ops kh")
    case Nil
    with "1.prems" show ?thesis by (simp add: unf sends_chain_messages_refl)
  next
    case (Cons b bs)
    obtain version p where b: "b = (version, p)" by (cases b)
    show ?thesis
    proof (cases "(fresh p \<or> \<not> has_value p) \<and> has_committable_ops kh")
      case True
      with "1.prems" Cons b show ?thesis by (simp add: unf sends_chain_messages_refl)
    next
      case False
      from "1.prems" Cons b False obtain w1 p1
        where s: "send_message ext w us version k p = Some (w1, p1)"
          and r: "blocked_to_committable ext w1 us k
                    (set_newest_committable_op p1 (transfer_blocked_to_committable kh)) = Some (w', kh')"
        by (auto simp: unf Let_def split: option.splits)
      from "1.IH" [OF Cons b [symmetric] False refl s refl r] send_message_sends [OF s]
      show ?thesis by (rule sends_chain_messages_trans [rotated])
    qed
  qed
qed

lemma move_operations_sends:
  "move_operations_between_queues ext w us k kh = Some (w', kh') \<Longrightarrow> sends_chain_messages w w'"
  by (auto simp: move_operations_between_queues_def sends_chain_messages_refl
      split: option.splits if_splits dest: blocked_to_committable_sends)

lemma put_to_disk_sends:
  "put_to_disk ext w r kh version = Some (ok, w', kh') \<Longrightarrow> sends_chain_messages w w'"
  by (auto simp: put_to_disk_def sends_chain_messages_def Let_def
      split: if_splits option.splits prod.splits)

lemma map_of_store_in:
  "map_of (store_in v p q) v' = (if v' = v \<and> map_of q v \<noteq> None then Some p else map_of q v')"
  by (induction q) auto

lemma get_by_version_store_op:
  "get_by_version (store_op v p kh) v = (case get_by_version kh v of None \<Rightarrow> None | Some _ \<Rightarrow> Some p)"
  by (auto simp: get_by_version_def store_op_def map_of_store_in split: option.splits)

lemma stored_keyholder_co:
  "acked_op_has_co (if kh_empty kh then erase_keyholder w r k else set_keyholder w r k kh) r k version c
     \<longleftrightarrow> kh_empty kh \<or> (case get_by_version kh version of None \<Rightarrow> True | Some p \<Rightarrow> co p = c)"
  by (auto simp: acked_op_has_co_def erase_keyholder_def set_keyholder_def delete_conv' update_conv'
      split: option.splits)

lemma stored_keyholder_comm:
  "m_comm (if kh_empty kh then erase_keyholder w r k else set_keyholder w r k kh) = m_comm w"
  by (simp add: erase_keyholder_def set_keyholder_def)

lemma chain_ack_accepted:
  assumes kh: "get_keyholder w (get_region dst) k = (w1, kh)"
    and pend: "get_by_version kh version = Some pend"
    and sent: "sent_e pend \<noteq> entityid_default"
    and run: "chain_ack ext w (sent_e pend) dst version k = Some w'"
  obtains w3 kh3 where "sends_chain_messages w w3"
    and "w' = (let (w4, kh4) =
                    (if is_point_leader (m_config w) dst then
                       if space (co_from (co pend)) = UINT32_MAX then
                         (respond_to_client ext w3 dst (co_from (co pend))
                            (co_nonce (co pend)) (retcode pend) NET_SUCCESS,
                          store_op version (pend\<lparr>acked := True, co := clientop_default\<rparr>) kh3)
                       else (w3, kh3)
                     else (snd (send_ack ext w3 dst (recv_e pend) version k), kh3))
               in if kh_empty kh4 then erase_keyholder w4 (get_region dst) k
                  else set_keyholder w4 (get_region dst) k kh4)"
proof -
  let ?w1 = "w1\<lparr>m_ost := m_ost w1 @ [(get_region dst, k, version)]\<rparr>"
  let ?kh1 = "store_op version (pend\<lparr>acked := True\<rparr>) kh"
  from run obtain ok w2 kh2 where p: "put_to_disk ext ?w1 (get_region dst) ?kh1 version = Some (ok, w2, kh2)"
    by (cases "put_to_disk ext ?w1 (get_region dst) ?kh1 version")
       (auto simp: chain_ack_def kh pend sent Let_def)
  from run p obtain w3 kh3
    where m: "move_operations_between_queues ext w2 dst k (remove_acked_ops kh2) = Some (w3, kh3)"
    by (cases "move_operations_between_queues ext w2 dst k (remove_acked_ops kh2)")
       (auto simp: chain_ack_def kh pend sent Let_def)
  have "sends_chain_messages w ?w1"
    using get_keyholder_facts [OF kh] by (simp add: sends_chain_messages_def)
  then have s: "sends_chain_messages w w3"
    using put_to_disk_sends [OF p] move_operations_sends [OF m]
    by (blast intro: sends_chain_messages_trans)
  then have c: "m_config w3 = m_config w" by (simp add: sends_chain_messages_def)
  from run have "w' = (let (w4, kh4) =
                    (if is_point_leader (m_config w) dst then
                       if space (co_from (co pend)) = UINT32_MAX then
                         (respond_to_client ext w3 dst (co_from (co pend))
                            (co_nonce (co pend)) (retcode pend) NET_SUCCESS,
                          store_op version (pend\<lparr>acked := True, co := clientop_default\<rparr>) kh3)
                       else (w3, kh3)
                     else (snd (send_ack ext w3 dst (recv_e pend) version k), kh3))
               in if kh_empty kh4 then erase_keyholder w4 (get_region dst) k
                  else set_keyholder w4 (get_region dst) k kh4)"
    by (auto simp: chain_ack_def kh pend sent p m c Let_def split: if_splits)
  with s show ?thesis by (rule that)
qed

text \<open>
  C1, amended. For every \<open>CHAIN_ACK\<close> that \<open>chain_ack\<close> accepts (a pending op is
  at the acked version, its \<open>sent_e\<close> is set, and the sender equals \<open>sent_e\<close>) and
  handles to the end: if the receiver is the point-leader of its region and the
  space of the op's \<open>co.from\<close> is \<open>UINT32_MAX\<close>, the last message \<open>chain_ack\<close>
  sends is \<open>SUCCESS\<close> to \<open>co.from\<close> with the op's nonce and return opcode, and the
  op's client op is cleared; if the receiver is the point-leader and that space is
  not \<open>UINT32_MAX\<close>, no response to a client is sent; if the receiver is not the
  point-leader, the last message it sends is a \<open>CHAIN_ACK\<close> for the version and key
  to the op's \<open>recv_e\<close>.
\<close>

theorem chain_ack_replies:
  assumes kh: "get_keyholder w (get_region dst) k = (w1, kh)"
    and pend: "get_by_version kh version = Some pend"
    and sent: "sent_e pend \<noteq> entityid_default"
    and src: "src = sent_e pend"
    and run: "chain_ack ext w src dst version k = Some w'"
  shows "(is_point_leader (m_config w) dst \<and> space (co_from (co pend)) = UINT32_MAX \<longrightarrow>
            m_comm w' \<noteq> [] \<and>
            last (m_comm w') = \<lparr>msg_from = dst, msg_to = co_from (co pend), msg_type = retcode pend,
                                 msg_payload = Response_payload (co_nonce (co pend)) NET_SUCCESS\<rparr> \<and>
            acked_op_has_co w' (get_region dst) k version clientop_default) \<and>
         (is_point_leader (m_config w) dst \<and> space (co_from (co pend)) \<noteq> UINT32_MAX \<longrightarrow>
            sends_chain_messages w w') \<and>
         (\<not> is_point_leader (m_config w) dst \<longrightarrow>
            m_comm w' \<noteq> [] \<and>
            last (m_comm w') = \<lparr>msg_from = dst, msg_to = recv_e pend, msg_type = CHAIN_ACK,
                                 msg_payload = Ack_payload version k\<rparr>)"
proof -
  from run src have run': "chain_ack ext w (sent_e pend) dst version k = Some w'" by simp
  from chain_ack_accepted [OF kh pend sent run'] obtain w3 kh3
    where s: "sends_chain_messages w w3"
      and w': "w' = (let (w4, kh4) =
                    (if is_point_leader (m_config w) dst then
                       if space (co_from (co pend)) = UINT32_MAX then
                         (respond_to_client ext w3 dst (co_from (co pend))
                            (co_nonce (co pend)) (retcode pend) NET_SUCCESS,
                          store_op version (pend\<lparr>acked := True, co := clientop_default\<rparr>) kh3)
                       else (w3, kh3)
                     else (snd (send_ack ext w3 dst (recv_e pend) version k), kh3))
               in if kh_empty kh4 then erase_keyholder w4 (get_region dst) k
                  else set_keyholder w4 (get_region dst) k kh4)"
    by blast
  have A: "m_comm w' \<noteq> [] \<and>
       last (m_comm w') = \<lparr>msg_from = dst, msg_to = co_from (co pend), msg_type = retcode pend,
                            msg_payload = Response_payload (co_nonce (co pend)) NET_SUCCESS\<rparr> \<and>
       acked_op_has_co w' (get_region dst) k version clientop_default"
    if "is_point_leader (m_config w) dst \<and> space (co_from (co pend)) = UINT32_MAX"
  proof -
    let ?w4 = "respond_to_client ext w3 dst (co_from (co pend)) (co_nonce (co pend)) (retcode pend)
                 NET_SUCCESS"
    let ?kh4 = "store_op version (pend\<lparr>acked := True, co := clientop_default\<rparr>) kh3"
    from that w' have e: "w' = (if kh_empty ?kh4 then erase_keyholder ?w4 (get_region dst) k
                            else set_keyholder ?w4 (get_region dst) k ?kh4)"
      by simp
    have c: "m_comm w' = m_comm w3 @ [\<lparr>msg_from = dst, msg_to = co_from (co pend),
                 msg_type = retcode pend,
                 msg_payload = Response_payload (co_nonce (co pend)) NET_SUCCESS\<rparr>]"
      unfolding e stored_keyholder_comm
      by (simp add: respond_to_client_def comm_send_msg_def Let_def)
    have "acked_op_has_co w' (get_region dst) k version clientop_default"
      unfolding e stored_keyholder_co
      by (simp add: get_by_version_store_op split: option.splits)
    with c show ?thesis by simp
  qed
  have B: "sends_chain_messages w w'"
    if "is_point_leader (m_config w) dst \<and> space (co_from (co pend)) \<noteq> UINT32_MAX"
  proof -
    from that w' have e: "w' = (if kh_empty kh3 then erase_keyholder w3 (get_region dst) k
                            else set_keyholder w3 (get_region dst) k kh3)"
      by simp
    have "sends_chain_messages w3 w'"
      unfolding e by (simp add: sends_chain_messages_def erase_keyholder_def set_keyholder_def)
    with s show ?thesis by (rule sends_chain_messages_trans)
  qed
  have C: "m_comm w' \<noteq> [] \<and>
       last (m_comm w') = \<lparr>msg_from = dst, msg_to = recv_e pend, msg_type = CHAIN_ACK,
                            msg_payload = Ack_payload version k\<rparr>"
    if "\<not> is_point_leader (m_config w) dst"
  proof -
    let ?w4 = "snd (send_ack ext w3 dst (recv_e pend) version k)"
    from that w' have e: "w' = (if kh_empty kh3 then erase_keyholder ?w4 (get_region dst) k
                            else set_keyholder ?w4 (get_region dst) k kh3)"
      by simp
    have "m_comm w' = m_comm w3 @ [\<lparr>msg_from = dst, msg_to = recv_e pend, msg_type = CHAIN_ACK,
                            msg_payload = Ack_payload version k\<rparr>]"
      unfolding e stored_keyholder_comm
      by (simp add: send_ack_def comm_send_msg_def Let_def)
    then show ?thesis by simp
  qed
  from A B C show ?thesis by blast
qed

lemma example_chain_ack_run:
  "chain_ack example_ext (example_acking opcode client) example_sender example_leader 1 [107]
     = Some (if space client = UINT32_MAX
             then example_acked
                    \<lparr>m_comm := [\<lparr>msg_from = example_leader, msg_to = client, msg_type = opcode,
                                 msg_payload = Response_payload 9 NET_SUCCESS\<rparr>]\<rparr>
             else example_acked)"
  by (simp add: chain_ack_def get_keyholder_def example_acking_def example_acked_def
        example_manager_def get_by_version_def new_keyholder_def example_sent_op_def
        new_pending_def example_sender_def entityid_default_def mk_entityid_def store_op_def
        put_to_disk_def get_region_def example_leader_def example_ext_def
        set_version_on_disk_def remove_acked_ops.simps remove_oldest_committable_op_def
        move_operations_between_queues_def deferred_to_blocked.simps
        blocked_to_committable.simps example_config_def kh_empty_def erase_keyholder_def
        respond_to_client_def comm_send_msg_def Let_def)

text \<open>
  C1, as stated: for a \<open>CHAIN_ACK\<close> that \<open>chain_ack\<close> accepts at the point-leader,
  if the pending op carries a pending client op, the client is sent \<open>SUCCESS\<close>. It
  fails: the op below carries a client op (region, entity and nonce 9, not the
  default \<open>clientop()\<close>) whose entity is in space 7; the ack is accepted, the
  receiver is the point-leader, and no message at all is sent.
\<close>

theorem chain_ack_client_op_counterexample:
  "get_keyholder (example_acking RESP_ATOMIC example_peer_client) (get_region example_leader) [107]
     = (example_acking RESP_ATOMIC example_peer_client,
        new_keyholder\<lparr>committable_ops := [(1, example_sent_op RESP_ATOMIC example_peer_client)]\<rparr>) \<and>
   get_by_version
       (new_keyholder\<lparr>committable_ops := [(1, example_sent_op RESP_ATOMIC example_peer_client)]\<rparr>) 1
     = Some (example_sent_op RESP_ATOMIC example_peer_client) \<and>
   sent_e (example_sent_op RESP_ATOMIC example_peer_client) = example_sender \<and>
   example_sender \<noteq> entityid_default \<and>
   is_point_leader (m_config (example_acking RESP_ATOMIC example_peer_client)) example_leader \<and>
   co (example_sent_op RESP_ATOMIC example_peer_client) \<noteq> clientop_default \<and>
   chain_ack example_ext (example_acking RESP_ATOMIC example_peer_client) example_sender
       example_leader 1 [107] = Some example_acked \<and>
   m_comm example_acked = []"
proof -
  have "space example_peer_client \<noteq> UINT32_MAX"
    by (simp add: example_peer_client_def mk_entityid_def UINT32_MAX_def)
  then have run: "chain_ack example_ext (example_acking RESP_ATOMIC example_peer_client)
      example_sender example_leader 1 [107] = Some example_acked"
    by (simp add: example_chain_ack_run)
  have "co (example_sent_op RESP_ATOMIC example_peer_client) \<noteq> clientop_default"
    by (simp add: example_sent_op_def new_pending_def clientop_default_def)
  with run show ?thesis
    by (simp add: get_keyholder_def example_acking_def get_by_version_def new_keyholder_def
          example_sent_op_def example_sender_def entityid_default_def mk_entityid_def
          example_manager_def example_config_def example_leader_def example_acked_def)
qed

theorem chain_ack_replies_witness:
  "chain_ack example_ext (example_acking RESP_ATOMIC example_client) example_sender
       example_leader 1 [107]
     = Some (example_acked
          \<lparr>m_comm := [\<lparr>msg_from = example_leader, msg_to = example_client, msg_type = RESP_ATOMIC,
                       msg_payload = Response_payload 9 NET_SUCCESS\<rparr>]\<rparr>) \<and>
   last (m_comm (example_acked
          \<lparr>m_comm := [\<lparr>msg_from = example_leader, msg_to = example_client, msg_type = RESP_ATOMIC,
                       msg_payload = Response_payload 9 NET_SUCCESS\<rparr>]\<rparr>))
     = \<lparr>msg_from = example_leader, msg_to = example_client, msg_type = RESP_ATOMIC,
        msg_payload = Response_payload 9 NET_SUCCESS\<rparr> \<and>
   acked_op_has_co (example_acked
          \<lparr>m_comm := [\<lparr>msg_from = example_leader, msg_to = example_client, msg_type = RESP_ATOMIC,
                       msg_payload = Response_payload 9 NET_SUCCESS\<rparr>]\<rparr>)
     (get_region example_leader) [107] 1 clientop_default"
proof -
  let ?w = "example_acking RESP_ATOMIC example_client"
  let ?p = "example_sent_op RESP_ATOMIC example_client"
  let ?kh = "new_keyholder\<lparr>committable_ops := [(1, ?p)]\<rparr>"
  let ?w' = "example_acked
          \<lparr>m_comm := [\<lparr>msg_from = example_leader, msg_to = example_client, msg_type = RESP_ATOMIC,
                       msg_payload = Response_payload 9 NET_SUCCESS\<rparr>]\<rparr>"
  have sp: "space example_client = UINT32_MAX"
    by (simp add: example_client_def mk_entityid_def)
  have kh: "get_keyholder ?w (get_region example_leader) [107] = (?w, ?kh)"
    by (simp add: get_keyholder_def example_acking_def)
  have pend: "get_by_version ?kh 1 = Some ?p"
    by (simp add: get_by_version_def new_keyholder_def)
  have sent: "sent_e ?p \<noteq> entityid_default"
    by (simp add: example_sent_op_def example_sender_def entityid_default_def mk_entityid_def)
  have src: "example_sender = sent_e ?p"
    by (simp add: example_sent_op_def)
  have run: "chain_ack example_ext ?w example_sender example_leader 1 [107] = Some ?w'"
    using sp by (simp add: example_chain_ack_run)
  have pl: "is_point_leader (m_config ?w) example_leader \<and> space (co_from (co ?p)) = UINT32_MAX"
    using sp
    by (simp add: example_acking_def example_manager_def example_config_def example_leader_def
          mk_entityid_def example_sent_op_def new_pending_def)
  have co: "co_from (co ?p) = example_client" "co_nonce (co ?p) = 9" "retcode ?p = RESP_ATOMIC"
    by (simp_all add: example_sent_op_def new_pending_def)
  from chain_ack_replies [OF kh pend sent src run] pl
  have "last (m_comm ?w') = \<lparr>msg_from = example_leader, msg_to = co_from (co ?p),
          msg_type = retcode ?p, msg_payload = Response_payload (co_nonce (co ?p)) NET_SUCCESS\<rparr> \<and>
        acked_op_has_co ?w' (get_region example_leader) [107] 1 clientop_default"
    by blast
  with run show ?thesis by (simp only: co)
qed

section \<open>A chain message for a version that is deferred already\<close>

text \<open>
  C4, as stated: whenever the disk version is below \<open>version - 1\<close> and the message is
  not fresh, the message's op is inserted into the deferred queue at its version. It
  fails where the deferred queue holds that version already: the keyholder below has
  no op at versions 9 and 8, the disk holds version 5, and a \<open>CHAIN_PUT\<close> of version
  9 with value 2 leaves the manager as it was, the deferred op of value 7 still at
  version 9.
\<close>

theorem chain_common_defers_counterexample:
  "get_keyholder example_deferring (get_region example_replica) [107]
     = (example_deferring, new_keyholder\<lparr>deferred_ops := [(9, example_parked)]\<rparr>) \<and>
   get_by_version (new_keyholder\<lparr>deferred_ops := [(9, example_parked)]\<rparr>) 9 = None \<and>
   get_by_version (new_keyholder\<lparr>deferred_ops := [(9, example_parked)]\<rparr>) (9 - 1) = None \<and>
   from_disk example_ext example_deferring (get_region example_replica) [107]
     = Some (True, [[1]], 5, 0) \<and>
   (5 :: version) < 9 - 1 \<and>
   chain_common example_ext example_deferring True example_upstream example_replica 9 False
       [107] [[2]] = Some example_deferring \<and>
   map_of (deferred_ops (new_keyholder\<lparr>deferred_ops := [(9, example_parked)]\<rparr>)) 9
     = Some example_parked \<and>
   d_value example_parked = [[7]] \<and>
   [[7 :: byte]] \<noteq> [[2]]"
  by (simp add: chain_common_def chain_common_queue_def get_keyholder_def example_deferring_def
        example_stored_def example_manager_def get_region_def example_replica_def
        example_region_def mk_entityid_def get_by_version_def new_keyholder_def from_disk_def
        example_ext_def example_config_def insert_deferred_def example_parked_def Let_def)

section \<open>Float keys that compare equal\<close>

lemma float_key_zeros:
  "float_key [0, 0, 0, 0, 0, 0, 0, 0] = Some 0" "float_key [0, 0, 0, 0, 0, 0, 0, 128] = Some 0"
  by (simp_all add: float_key_def Let_def)


text \<open>The numeric comparator of floats is not a strict total order on the valid keys.\<close>

lemma compare_float_numeric_not_total:
  "\<not> strict_total_on (validate_as T_float) compare_float_numeric"
proof
  assume "strict_total_on (validate_as T_float) compare_float_numeric"
  then have total: "\<forall>a b. validate_as T_float a \<and> validate_as T_float b \<and> a \<noteq> b \<longrightarrow>
      compare_float_numeric a b \<or> compare_float_numeric b a"
    unfolding strict_total_on_def by (elim conjE)
  let ?z = "[0, 0, 0, 0, 0, 0, 0, 0] :: slice"
  let ?m = "[0, 0, 0, 0, 0, 0, 0, 128] :: slice"
  have v: "validate_as T_float ?z \<and> validate_as T_float ?m \<and> ?z \<noteq> ?m"
    by (simp add: validate_as_def)
  from total [THEN spec, THEN spec, of ?z ?m] v
  have "compare_float_numeric ?z ?m \<or> compare_float_numeric ?m ?z"
    by (rule mp)
  then show False
    by (simp add: compare_float_numeric_def float_key_zeros)
qed

end
